theory Spec2Isabelle
  imports Complex_Main "HOL-Library.Multiset"
begin

section \<open>Vectors and matrices\<close>

text \<open>
  The module computes with numpy arrays of floats.  The development works over exact
  real arithmetic: a 3-vector is a triple of reals, a 3x3 matrix is a triple of rows.
\<close>

type_synonym vec3 = "real \<times> real \<times> real"
type_synonym mat3 = "vec3 \<times> vec3 \<times> vec3"

fun vadd :: "vec3 \<Rightarrow> vec3 \<Rightarrow> vec3" where
  "vadd (a, b, c) (x, y, z) = (a + x, b + y, c + z)"

fun vsub :: "vec3 \<Rightarrow> vec3 \<Rightarrow> vec3" where
  "vsub (a, b, c) (x, y, z) = (a - x, b - y, c - z)"

fun smul :: "real \<Rightarrow> vec3 \<Rightarrow> vec3" where
  "smul t (x, y, z) = (t * x, t * y, t * z)"

fun vdiv :: "vec3 \<Rightarrow> real \<Rightarrow> vec3" where
  "vdiv (x, y, z) t = (x / t, y / t, z / t)"

text \<open>numpy's \<open>dot\<close> of a 1-D array with a 2-D array: a row vector times a matrix.\<close>

fun dot_vm :: "vec3 \<Rightarrow> mat3 \<Rightarrow> vec3" where
  "dot_vm (a, b, c) ((m00, m01, m02), (m10, m11, m12), (m20, m21, m22)) =
     (a * m00 + b * m10 + c * m20,
      a * m01 + b * m11 + c * m21,
      a * m02 + b * m12 + c * m22)"

text \<open>numpy's \<open>dot\<close> of two 2-D arrays: the matrix product, row by row.\<close>

fun dot_mm :: "mat3 \<Rightarrow> mat3 \<Rightarrow> mat3" where
  "dot_mm (r0, r1, r2) B = (dot_vm r0 B, dot_vm r1 B, dot_vm r2 B)"

fun transpose3 :: "mat3 \<Rightarrow> mat3" where
  "transpose3 ((m00, m01, m02), (m10, m11, m12), (m20, m21, m22)) =
     ((m00, m10, m20), (m01, m11, m21), (m02, m12, m22))"

definition identity3 :: mat3 where
  "identity3 = ((1, 0, 0), (0, 1, 0), (0, 0, 1))"

text \<open>
  The exceptions that the module and the library functions it calls raise;
  \<open>OtherError\<close> is any other exception that \<open>line_dist\<close> may raise.
\<close>

datatype error = TypeError | IndexError | KeyError | LinAlgError | OtherError

text \<open>
  \<open>numpy.linalg.inv\<close>: the inverse of a square matrix, raising \<open>LinAlgError\<close> on a
  singular one.  Over the reals the inverse is the adjugate divided by the determinant.
\<close>

fun det3 :: "mat3 \<Rightarrow> real" where
  "det3 ((a, b, c), (d, e, g), (h, i, j)) =
     a * (e * j - g * i) - b * (d * j - g * h) + c * (d * i - e * h)"

fun adjugate3 :: "mat3 \<Rightarrow> mat3" where
  "adjugate3 ((a, b, c), (d, e, g), (h, i, j)) =
     ((e * j - g * i, c * i - b * j, b * g - c * e),
      (g * h - d * j, a * j - c * h, c * d - a * g),
      (d * i - e * h, b * h - a * i, a * e - b * d))"

fun mdiv :: "mat3 \<Rightarrow> real \<Rightarrow> mat3" where
  "mdiv (r0, r1, r2) t = (vdiv r0 t, vdiv r1 t, vdiv r2 t)"

definition inv_np :: "mat3 \<Rightarrow> error + mat3" where
  "inv_np M = (if det3 M = 0 then Inl LinAlgError else Inr (mdiv (adjugate3 M) (det3 M)))"

section \<open>Python values\<close>

text \<open>
  The values a caller can pass as a camera name, and their types as \<open>type(...)\<close>
  reports them.  A string is an instance of \<open>str\<close>: its type is \<open>str\<close> itself
  (\<open>PyStr\<close>) or a subclass of \<open>str\<close>, such as \<open>numpy.str_\<close> (\<open>PyStrSubclass\<close>).
\<close>

datatype pyval =
  PyNone | PyBool bool | PyInt int | PyFloat real | PyStr string | PyStrSubclass string
| PyTuple "pyval list"

datatype pytype =
  NoneType | bool_type | int_type | float_type | str_type | str_subclass_type | tuple_type

fun py_type :: "pyval \<Rightarrow> pytype" where
  "py_type PyNone = NoneType"
| "py_type (PyBool b) = bool_type"
| "py_type (PyInt i) = int_type"
| "py_type (PyFloat x) = float_type"
| "py_type (PyStr s) = str_type"
| "py_type (PyStrSubclass s) = str_subclass_type"
| "py_type (PyTuple vs) = tuple_type"

text \<open>
  Indexing a Python list with an integer: a negative index counts from the end, an index
  out of range raises \<open>IndexError\<close>.  The result is the position that is read.
\<close>

definition py_index :: "'a list \<Rightarrow> int \<Rightarrow> error + nat" where
  "py_index xs k =
     (let n = int (length xs)
      in if 0 \<le> k \<and> k < n then Inr (nat k)
         else if - n \<le> k \<and> k < 0 then Inr (nat (n + k))
         else Inl IndexError)"

text \<open>
  The builtin \<open>sum\<close> adds from the left, starting at \<open>0\<close>; on a list of arrays the
  \<open>0\<close> is broadcast to the zero vector.
\<close>

definition py_sum :: "real list \<Rightarrow> real" where
  "py_sum xs = foldl (+) 0 xs"

definition py_sum_vec :: "vec3 list \<Rightarrow> vec3" where
  "py_sum_vec xs = foldl vadd (0, 0, 0) xs"

section \<open>The camera\<close>

text \<open>
  The attributes of class \<open>camera\<close>: \<open>O\<close> (location), \<open>theta\<close> (rotation angles),
  \<open>f\<close> (focal depth), \<open>R\<close> (rotation matrix), \<open>resolution\<close> (two integers) and
  \<open>name\<close>, which does not exist before \<open>give_name\<close> has run, and \<open>image_points\<close> and
  \<open>lab_points\<close>, which exist only when the camera was made from a calibration file.  The
  fields carry the prefix \<open>cam_\<close> because \<open>O\<close> is relation composition in HOL and single
  letters would capture variables.
\<close>

record camera =
  cam_O :: vec3
  cam_theta :: vec3
  cam_f :: real
  cam_R :: mat3
  cam_resolution :: "int \<times> int"
  cam_name :: "pyval option"
  cam_image_points :: "(real \<times> real) list option"
  cam_lab_points :: "vec3 list option"

text \<open>\<open>camera.calc_R\<close>: writes \<open>self.R = dot(dot(Rx, Ry), Rz)\<close>.\<close>

definition calc_R :: "camera \<Rightarrow> camera" where
  "calc_R c =
     (case cam_theta c of (tx, ty, tz) \<Rightarrow>
        let Rx = ((1, 0, 0),
                  (0, cos tx, - sin tx),
                  (0, sin tx, cos tx));
            Ry = ((cos ty, 0, sin ty),
                  (0, 1, 0),
                  (- sin ty, 0, cos ty));
            Rz = ((cos tz, - sin tz, 0),
                  (sin tz, cos tz, 0),
                  (0, 0, 1))
        in c\<lparr>cam_R := dot_mm (dot_mm Rx Ry) Rz\<rparr>)"

text \<open>
  \<open>camera.get_r\<close>: refreshes the matrix, centres the pixel coordinates with the float
  division \<open>/2.0\<close> and rotates.  The method mutates the camera, so the model returns the
  camera after the call together with the direction.
\<close>

definition get_r :: "camera \<Rightarrow> real \<Rightarrow> real \<Rightarrow> camera \<times> vec3" where
  "get_r c eta zeta =
     (let c1 = calc_R c;
          eta' = eta - real_of_int (fst (cam_resolution c1)) / 2;
          zeta' = zeta - real_of_int (snd (cam_resolution c1)) / 2;
          r = dot_vm (- eta', - zeta', - cam_f c1) (cam_R c1)
      in (c1, r))"

text \<open>
  \<open>camera.projection\<close>.  The first line, \<open>v = dot(x - self.O, inv(self.R))\<close>, gives the
  point in the camera frame; it raises when the stored matrix is singular.
\<close>

definition camera_frame :: "camera \<Rightarrow> vec3 \<Rightarrow> error + vec3" where
  "camera_frame c x =
     (case inv_np (cam_R c) of
        Inl e \<Rightarrow> Inl e
      | Inr Ri \<Rightarrow> Inr (dot_vm (vsub x (cam_O c)) Ri))"

text \<open>
  The rest of \<open>projection\<close> divides floats; \<open>self.resolution[0]/2\<close> is the true
  division of the integer by two, the same half resolution that \<open>get_r\<close> subtracts.
  numpy's float division by zero does not raise: it gives an
  infinity or a NaN, which no real number stands for.  The model returns \<open>None\<close> when the
  returned array holds such a value, which is exactly when \<open>v[2] = 0\<close> (then \<open>a\<close> is
  zero or NaN and both quotients are infinite or NaN).  When \<open>v[2] \<noteq> 0\<close> and
  \<open>self.f = 0\<close>, \<open>a\<close> is an infinity, both quotients are (signed) zero and the result is the
  finite pair of the two half resolutions.
\<close>

definition projection :: "camera \<Rightarrow> vec3 \<Rightarrow> error + (real \<times> real) option" where
  "projection c x =
     (case camera_frame c x of
        Inl e \<Rightarrow> Inl e
      | Inr (v0, v1, v2) \<Rightarrow>
          let half0 = real_of_int (fst (cam_resolution c)) / 2;
              half1 = real_of_int (snd (cam_resolution c)) / 2
          in if v2 = 0 then Inr None
             else if cam_f c = 0 then Inr (Some (half0, half1))
             else
               let a = - 1 * v2 / cam_f c;
                   eta = (- 1 * v0) / a + half0;
                   zeta = (- 1 * v1) / a + half1
               in Inr (Some (eta, zeta)))"

text \<open>\<open>camera.give_name\<close>: the test is \<open>type(name) == str\<close>.\<close>

definition give_name :: "camera \<Rightarrow> pyval \<Rightarrow> error + camera" where
  "give_name c name =
     (if py_type name = str_type then Inr (c\<lparr>cam_name := Some name\<rparr>)
      else Inl TypeError)"

text \<open>
  \<open>Cal_image_coord\<close> is imported from the module \<open>cal_image_coords\<close>; the constructor
  takes it as a parameter here.  It reads the calibration file of the given name and
  gives the image coordinates and the lab coordinates, or raises.
\<close>

type_synonym cal_reader = "string \<Rightarrow> error + ((real \<times> real) list \<times> vec3 list)"

text \<open>
  \<open>camera.__init__\<close>.  The attributes are set in the order of the source.  A record
  has all its fields from the start: \<open>R\<close>, \<open>resolution\<close>, \<open>name\<close> and the calibration
  points do not exist before they are assigned, and what the fields hold until then is
  never read.
\<close>

definition camera_init ::
  "cal_reader \<Rightarrow> pyval \<Rightarrow> int \<times> int \<Rightarrow> string option \<Rightarrow> error + camera" where
  "camera_init Cal_image_coord name resolution cal_points_fname =
     (let self = \<lparr>cam_O = vadd (0, 0, 0) (1, 1, 1),
                    cam_theta = vadd (0, 0, 0) (1, 1, 1),
                    cam_f = 1,
                    cam_R = ((0, 0, 0), (0, 0, 0), (0, 0, 0)),
                    cam_resolution = resolution,
                    cam_name = None,
                    cam_image_points = None,
                    cam_lab_points = None\<rparr>;
          self = calc_R self;
          self = self\<lparr>cam_resolution := resolution\<rparr>
      in (case give_name self name of
            Inl e \<Rightarrow> Inl e
          | Inr self \<Rightarrow>
              (case cal_points_fname of
                 None \<Rightarrow> Inr self
               | Some fname \<Rightarrow>
                   (case Cal_image_coord fname of
                      Inl e \<Rightarrow> Inl e
                    | Inr (image_coords, lab_coords) \<Rightarrow>
                        Inr (self\<lparr>cam_image_points := Some image_coords,
                                   cam_lab_points := Some lab_coords\<rparr>)))))"

section \<open>The imaging system\<close>

record img_system =
  cameras :: "camera list"

text \<open>
  \<open>line_dist\<close> is imported from the module \<open>utils\<close>; \<open>stereo_match\<close> takes it as a
  parameter here.  It returns the distance and the point, or raises.
\<close>

type_synonym line_dist_fn = "vec3 \<Rightarrow> vec3 \<Rightarrow> vec3 \<Rightarrow> vec3 \<Rightarrow> error + (real \<times> vec3)"

text \<open>
  The observations \<open>coords\<close> are a dictionary from camera number to pixel coordinates.
  Its iteration order matters to the loop, so it is an association list in iteration
  order; a dictionary has no key twice.
\<close>

type_synonym coords = "(int \<times> real \<times> real) list"

text \<open>
  The state of the loop of \<open>stereo_match\<close>: the three lists \<open>x\<close>, \<open>cams\<close> and \<open>d\<close>,
  and the cameras of the system, which \<open>get_r\<close> mutates.  \<open>ghost_calls\<close> is not a variable
  of the source: it logs the pair of keys of every call of \<open>line_dist\<close>, so that theorems
  can speak about the calls.
\<close>

record match_state =
  st_cameras :: "camera list"
  st_x :: "vec3 list"
  st_cams :: "int list"
  st_d :: "real list"
  ghost_calls :: "(int \<times> int) list"

text \<open>
  The two lines \<open>O1 = self.cameras[ki].O\<close> and
  \<open>r1 = self.cameras[ki].get_r(coords[ki][0], coords[ki][1])\<close>, for a key \<open>k\<close>: the
  cameras after the call, the location and the direction.
\<close>

definition observe :: "camera list \<Rightarrow> coords \<Rightarrow> int \<Rightarrow> error + (camera list \<times> vec3 \<times> vec3)" where
  "observe cs coords k =
     (case py_index cs k of
        Inl e \<Rightarrow> Inl e
      | Inr a \<Rightarrow>
          (let Ok = cam_O (cs ! a)
           in (case map_of coords k of
                 None \<Rightarrow> Inl KeyError
               | Some (eta, zeta) \<Rightarrow>
                   (case get_r (cs ! a) eta zeta of
                      (c', r) \<Rightarrow> Inr (cs[a := c'], Ok, r)))))"

text \<open>The body of the inner loop, for the indices \<open>i\<close> and \<open>j\<close>.\<close>

definition pair_step ::
  "line_dist_fn \<Rightarrow> coords \<Rightarrow> real \<Rightarrow> int list \<Rightarrow> nat \<Rightarrow> nat \<Rightarrow> match_state \<Rightarrow> error + match_state" where
  "pair_step ld coords d_max keys i j st =
     (let ki = keys ! i
      in (case observe (st_cameras st) coords ki of
            Inl e \<Rightarrow> Inl e
          | Inr (cs1, O1, r1) \<Rightarrow>
              (let kj = keys ! j
               in (case observe cs1 coords kj of
                     Inl e \<Rightarrow> Inl e
                   | Inr (cs2, O2, r2) \<Rightarrow>
                       (case ld O1 r1 O2 r2 of
                          Inl e \<Rightarrow> Inl e
                        | Inr (D, x_ij) \<Rightarrow>
                            (let st1 = st\<lparr>st_cameras := cs2,
                                           ghost_calls := ghost_calls st @ [(ki, kj)]\<rparr>
                             in if D \<le> d_max
                                then Inr (st1\<lparr>st_x := st_x st1 @ [x_ij],
                                              st_cams := st_cams st1 @ [ki, kj],
                                              st_d := st_d st1 @ [D]\<rparr>)
                                else Inr st1))))))"

text \<open>A \<open>for\<close> loop over a list whose body may raise.\<close>

fun for_each :: "'a list \<Rightarrow> ('a \<Rightarrow> 's \<Rightarrow> error + 's) \<Rightarrow> 's \<Rightarrow> error + 's" where
  "for_each [] body s = Inr s"
| "for_each (a # as) body s =
     (case body a s of Inl e \<Rightarrow> Inl e | Inr s' \<Rightarrow> for_each as body s')"

text \<open>The two nested loops of \<open>stereo_match\<close>, over \<open>range(N)\<close> and \<open>range(i+1, N)\<close>.\<close>

definition stereo_loop :: "line_dist_fn \<Rightarrow> img_system \<Rightarrow> coords \<Rightarrow> real \<Rightarrow> error + match_state" where
  "stereo_loop ld sys coords d_max =
     (let N = length coords;
          keys = map fst coords
      in for_each [0..<N]
           (\<lambda>i. for_each [i + 1..<N] (\<lambda>j. pair_step ld coords d_max keys i j))
           \<lparr>st_cameras = cameras sys, st_x = [], st_cams = [], st_d = [], ghost_calls = []\<rparr>)"

text \<open>
  \<open>img_system.stereo_match\<close>: the value returned (\<open>None\<close> or the triple) and the system
  after the call.
\<close>

definition stereo_match ::
  "line_dist_fn \<Rightarrow> img_system \<Rightarrow> coords \<Rightarrow> real \<Rightarrow>
     error + ((vec3 \<times> int set \<times> real) option \<times> img_system)" where
  "stereo_match ld sys coords d_max =
     (case stereo_loop ld sys coords d_max of
        Inl e \<Rightarrow> Inl e
      | Inr st \<Rightarrow>
          let x = st_x st; cams = st_cams st; d = st_d st;
              sys' = sys\<lparr>cameras := st_cameras st\<rparr>
          in if length x \<ge> 1
             then Inr (Some (vdiv (vdiv (py_sum_vec x) 1) (real (length x)),
                             set cams,
                             py_sum d / 1 / real (length x)), sys')
             else Inr (None, sys'))"

section \<open>What the specification speaks about\<close>

subsection \<open>Rotations\<close>

text \<open>
  The standard right-handed rotation by the angle \<open>t\<close> about the unit axis \<open>u\<close>, acting on
  column vectors, by Rodrigues' formula:
  \<open>cos t . I + sin t . [u]\<^sub>\<times> + (1 - cos t) . u u\<^sup>T\<close>.  The elemental rotation matrices of the
  specification are its values at the three coordinate axes.
\<close>

fun madd :: "mat3 \<Rightarrow> mat3 \<Rightarrow> mat3" where
  "madd (a0, a1, a2) (b0, b1, b2) = (vadd a0 b0, vadd a1 b1, vadd a2 b2)"

fun mscale :: "real \<Rightarrow> mat3 \<Rightarrow> mat3" where
  "mscale t (r0, r1, r2) = (smul t r0, smul t r1, smul t r2)"

fun cross_matrix :: "vec3 \<Rightarrow> mat3" where
  "cross_matrix (ux, uy, uz) = ((0, - uz, uy), (uz, 0, - ux), (- uy, ux, 0))"

fun outer3 :: "vec3 \<Rightarrow> vec3 \<Rightarrow> mat3" where
  "outer3 (ux, uy, uz) v = (smul ux v, smul uy v, smul uz v)"

definition rotation_about :: "vec3 \<Rightarrow> real \<Rightarrow> mat3" where
  "rotation_about u t =
     madd (madd (mscale (cos t) identity3) (mscale (sin t) (cross_matrix u)))
          (mscale (1 - cos t) (outer3 u u))"

definition orthonormal :: "mat3 \<Rightarrow> bool" where
  "orthonormal M \<longleftrightarrow>
     dot_mm M (transpose3 M) = identity3 \<and> dot_mm (transpose3 M) M = identity3"

text \<open>
  The rotation matrix of an angle triple: \<open>R\<^sub>x(tx) . R\<^sub>y(ty) . R\<^sub>z(tz)\<close>.  A camera's matrix
  is consistent with its angles when it is the rotation matrix of the angles the camera
  holds.
\<close>

fun rotation_of :: "vec3 \<Rightarrow> mat3" where
  "rotation_of (tx, ty, tz) =
     dot_mm (dot_mm (rotation_about (1, 0, 0) tx) (rotation_about (0, 1, 0) ty))
            (rotation_about (0, 0, 1) tz)"

definition consistent :: "camera \<Rightarrow> bool" where
  "consistent c \<longleftrightarrow> cam_R c = rotation_of (cam_theta c)"

subsection \<open>Strings\<close>


subsection \<open>The round trip\<close>

text \<open>
  The round trip of a lab point \<open>x\<close>: \<open>projection\<close> returns finite pixel coordinates, and
  the direction \<open>get_r\<close> gives at them is a nonzero multiple of \<open>x - O\<close>, so that \<open>x\<close> is on
  the line through the camera along that direction.
\<close>

definition round_trip :: "camera \<Rightarrow> vec3 \<Rightarrow> bool" where
  "round_trip c x =
     (case projection c x of
        Inr (Some (eta, zeta)) \<Rightarrow>
          (\<exists>t. t \<noteq> 0 \<and> snd (get_r c eta zeta) = smul t (vsub x (cam_O c)))
      | _ \<Rightarrow> False)"

subsection \<open>Pairs of observations\<close>

text \<open>The value a call returns, without the state after it.\<close>

definition return_value :: "error + ('a \<times> img_system) \<Rightarrow> error + 'a" where
  "return_value m = map_sum id fst m"

text \<open>
  The epipolar ray of the observation with key \<open>k\<close>: the location of camera \<open>k\<close> and the
  direction \<open>get_r\<close> gives at the pixel coordinates observed by that camera, for the
  system as it is when \<open>stereo_match\<close> is called.
\<close>

definition epipolar :: "img_system \<Rightarrow> coords \<Rightarrow> int \<Rightarrow> error + (vec3 \<times> vec3)" where
  "epipolar sys coords k =
     (case py_index (cameras sys) k of
        Inl e \<Rightarrow> Inl e
      | Inr a \<Rightarrow>
          (case map_of coords k of
             None \<Rightarrow> Inl KeyError
           | Some (eta, zeta) \<Rightarrow>
               Inr (cam_O (cameras sys ! a), snd (get_r (cameras sys ! a) eta zeta))))"

text \<open>The closest approach of the rays of two keys: the two keys, the distance, the point.\<close>

record pair_result =
  pr_ki :: int
  pr_kj :: int
  pr_D :: real
  pr_x :: vec3

definition closest :: "line_dist_fn \<Rightarrow> img_system \<Rightarrow> coords \<Rightarrow> int \<times> int \<Rightarrow> error + pair_result" where
  "closest ld sys coords p =
     (case epipolar sys coords (fst p) of
        Inl e \<Rightarrow> Inl e
      | Inr (O1, r1) \<Rightarrow>
          (case epipolar sys coords (snd p) of
             Inl e \<Rightarrow> Inl e
           | Inr (O2, r2) \<Rightarrow>
               (case ld O1 r1 O2 r2 of
                  Inl e \<Rightarrow> Inl e
                | Inr (D, x) \<Rightarrow> Inr \<lparr>pr_ki = fst p, pr_kj = snd p, pr_D = D, pr_x = x\<rparr>)))"

text \<open>The pairs of positions \<open>i < j < N\<close>, and the pairs of keys at them.\<close>

definition index_pairs :: "nat \<Rightarrow> (nat \<times> nat) list" where
  "index_pairs N = concat (map (\<lambda>i. map (Pair i) [i + 1..<N]) [0..<N])"

definition key_pairs :: "int list \<Rightarrow> (int \<times> int) list" where
  "key_pairs keys = map (\<lambda>(i, j). (keys ! i, keys ! j)) (index_pairs (length keys))"

text \<open>The unordered pairs of distinct elements of a set.\<close>

definition unordered_pairs :: "int set \<Rightarrow> int set set" where
  "unordered_pairs K = {s. s \<subseteq> K \<and> card s = 2}"

definition unordered :: "int \<times> int \<Rightarrow> int set" where
  "unordered p = {fst p, snd p}"

text \<open>Results in order, up to the first exception.\<close>

fun sequence_err :: "(error + 'a) list \<Rightarrow> error + 'a list" where
  "sequence_err [] = Inr []"
| "sequence_err (m # ms) =
     (case m of
        Inl e \<Rightarrow> Inl e
      | Inr v \<Rightarrow> (case sequence_err ms of Inl e \<Rightarrow> Inl e | Inr vs \<Rightarrow> Inr (v # vs)))"

definition pair_results :: "line_dist_fn \<Rightarrow> img_system \<Rightarrow> coords \<Rightarrow> error + pair_result list" where
  "pair_results ld sys coords =
     sequence_err (map (closest ld sys coords) (key_pairs (map fst coords)))"

definition retained :: "real \<Rightarrow> pair_result list \<Rightarrow> pair_result list" where
  "retained d_max rs = filter (\<lambda>r. pr_D r \<le> d_max) rs"

text \<open>Arithmetic means.\<close>

definition mean :: "real list \<Rightarrow> real" where
  "mean ds = sum_list ds / real (length ds)"

definition mean_vec :: "vec3 list \<Rightarrow> vec3" where
  "mean_vec xs =
     (mean (map fst xs), mean (map (\<lambda>v. fst (snd v)) xs), mean (map (\<lambda>v. snd (snd v)) xs))"

text \<open>A \<open>line_dist\<close> that does not depend on which of the two lines is given first.\<close>

definition ld_symmetric :: "line_dist_fn \<Rightarrow> bool" where
  "ld_symmetric ld \<longleftrightarrow> (\<forall>O1 r1 O2 r2. ld O1 r1 O2 r2 = ld O2 r2 O1 r1)"

text \<open>
  What a pair adds to the output: its distance, its point and its two identifiers, without
  their order.
\<close>

definition contribution :: "pair_result \<Rightarrow> real \<times> vec3 \<times> int set" where
  "contribution r = (pr_D r, pr_x r, {pr_ki r, pr_kj r})"

subsection \<open>The closest approach of two lines\<close>

fun vdot :: "vec3 \<Rightarrow> vec3 \<Rightarrow> real" where
  "vdot (a, b, c) (x, y, z) = a * x + b * y + c * z"

fun vnorm :: "vec3 \<Rightarrow> real" where
  "vnorm (x, y, z) = sqrt (x * x + y * y + z * z)"

text \<open>
  Modelled from the spec: \<open>line_dist\<close> of the module \<open>utils\<close>, which is not among the
  sources.  The specification's \<open>closestApproach\<close>: the 2x2 linear system obtained by
  projecting the connecting vector onto each direction is solved for the parameters
  \<open>t\<close> and \<open>s\<close>, the two closest points are evaluated, and their distance and their
  midpoint are returned.  For parallel directions the system is singular and the
  specification leaves the behaviour to the implementation; here it raises.
\<close>

definition line_dist :: line_dist_fn where
  "line_dist O1 r1 O2 r2 =
     (let w = vsub O1 O2;
          a = vdot r1 r1; b = vdot r1 r2; c = vdot r2 r2;
          d = vdot r1 w; e = vdot r2 w;
          den = a * c - b * b
      in if den = 0 then Inl LinAlgError
         else
           let t = (b * e - c * d) / den;
               s = (a * e - b * d) / den;
               P1 = vadd O1 (smul t r1);
               P2 = vadd O2 (smul s r2)
           in Inr (vnorm (vsub P1 P2), vdiv (vadd P1 P2) 2))"

subsection \<open>Example data\<close>

text \<open>
  Cameras with resolution \<open>(10, 10)\<close>, focal depth \<open>1\<close> and all angles zero, and a system
  of three of them.
\<close>

definition example_camera :: "vec3 \<Rightarrow> camera" where
  "example_camera pos =
     \<lparr>cam_O = pos, cam_theta = (0, 0, 0), cam_f = 1, cam_R = identity3,
      cam_resolution = (10, 10), cam_name = Some (PyStr ''cam''),
      cam_image_points = None, cam_lab_points = None\<rparr>"

definition example_system :: img_system where
  "example_system =
     \<lparr>cameras = [example_camera (0, 0, 0), example_camera (2, 0, 0), example_camera (0, 2, 0)]\<rparr>"

text \<open>
  Three observations: the ray of camera 0 is the third axis, the rays of cameras 1 and 2
  pass it at distance 2 and meet each other in \<open>(2, 2, 2)\<close>.
\<close>

definition example_coords :: coords where
  "example_coords = [(0, (5, 5)), (1, (5, 6)), (2, (6, 5))]"

text \<open>The state of the loop after it has run on them with \<open>d_max = 2\<close>.\<close>

definition example_state :: match_state where
  "example_state =
     \<lparr>st_cameras = cameras example_system,
      st_x = [(1, 0, 0), (0, 1, 0), (2, 2, 2)],
      st_cams = [0, 1, 0, 2, 1, 2],
      st_d = [2, 2, 0],
      ghost_calls = [(0, 1), (0, 2), (1, 2)]\<rparr>"

subsection \<open>The loop, abstractly\<close>

text \<open>
  Two cameras have the same pose when they differ in the stored matrix at most:
  \<open>get_r\<close> recomputes the matrix, so that is all it can change.
\<close>

definition same_pose :: "camera \<Rightarrow> camera \<Rightarrow> bool" where
  "same_pose c c' \<longleftrightarrow> (\<exists>M. c' = c\<lparr>cam_R := M\<rparr>)"

text \<open>What one pass of the loop body does to the lists, given the result of the pair.\<close>

definition record_pair :: "real \<Rightarrow> match_state \<Rightarrow> pair_result \<Rightarrow> match_state" where
  "record_pair d_max st r =
     (let st1 = st\<lparr>ghost_calls := ghost_calls st @ [(pr_ki r, pr_kj r)]\<rparr>
      in if pr_D r \<le> d_max
         then st1\<lparr>st_x := st_x st1 @ [pr_x r],
                  st_cams := st_cams st1 @ [pr_ki r, pr_kj r],
                  st_d := st_d st1 @ [pr_D r]\<rparr>
         else st1)"

text \<open>The output the specification describes, from the results of all pairs.\<close>

definition aggregate :: "real \<Rightarrow> pair_result list \<Rightarrow> (vec3 \<times> int set \<times> real) option" where
  "aggregate d_max rs =
     (let kept = retained d_max rs
      in if kept = [] then None
         else Some (mean_vec (map pr_x kept),
                    (\<Union>r\<in>set kept. {pr_ki r, pr_kj r}),
                    mean (map pr_D kept)))"

section \<open>Matrix algebra\<close>

lemma mat3_cases:
  obtains a b c d e g h i j where "(M::mat3) = ((a, b, c), (d, e, g), (h, i, j))"
  by (cases M) auto

lemma dot_mm_assoc: "dot_mm (dot_mm A B) C = dot_mm A (dot_mm B C)"
  by (cases A rule: mat3_cases; cases B rule: mat3_cases; cases C rule: mat3_cases)
     (simp add: algebra_simps)

lemma dot_vm_assoc: "dot_vm (dot_vm w A) B = dot_vm w (dot_mm A B)"
  by (cases w; cases A rule: mat3_cases; cases B rule: mat3_cases) (simp add: algebra_simps)

lemma dot_vm_identity: "dot_vm w identity3 = w"
  by (cases w) (simp add: identity3_def)

lemma dot_mm_identity_left: "dot_mm identity3 A = A"
  by (cases A rule: mat3_cases) (simp add: identity3_def)

lemma transpose3_dot_mm: "transpose3 (dot_mm A B) = dot_mm (transpose3 B) (transpose3 A)"
  by (cases A rule: mat3_cases; cases B rule: mat3_cases) (simp add: algebra_simps)

lemma det3_dot_mm: "det3 (dot_mm A B) = det3 A * det3 B"
  by (cases A rule: mat3_cases; cases B rule: mat3_cases) (simp add: algebra_simps)

lemma det3_identity: "det3 identity3 = 1"
  by (simp add: identity3_def)

lemma smul_dot_vm: "dot_vm (smul t v) M = smul t (dot_vm v M)"
  by (cases v; cases M rule: mat3_cases) (simp add: algebra_simps)

lemma inverse_times_matrix:
  assumes nz: "det3 M \<noteq> 0"
  shows "dot_mm (mdiv (adjugate3 M) (det3 M)) M = identity3"
proof (cases M rule: mat3_cases)
  case (1 a b c d e g h i j)
  define D where "D = det3 M"
  have D: "D = a * (e * j - g * i) - b * (d * j - g * h) + c * (d * i - e * h)" "D \<noteq> 0"
    using nz by (simp_all add: D_def 1)
  have "dot_mm (mdiv (adjugate3 M) D) M = identity3"
    unfolding 1 identity3_def using D(2)
    apply (simp add: divide_simps)
    apply (intro conjI)
    apply (simp_all add: D(1) algebra_simps)
    done
  thus ?thesis by (simp add: D_def)
qed

lemma camera_frame_back:
  assumes "camera_frame c x = Inr v"
  shows "dot_vm v (cam_R c) = vsub x (cam_O c)"
proof -
  from assms have nz: "det3 (cam_R c) \<noteq> 0"
    and v: "v = dot_vm (vsub x (cam_O c)) (mdiv (adjugate3 (cam_R c)) (det3 (cam_R c)))"
    by (auto simp: camera_frame_def inv_np_def split: if_splits)
  show ?thesis
    by (simp only: v dot_vm_assoc inverse_times_matrix[OF nz] dot_vm_identity)
qed

section \<open>The rotation matrix\<close>

lemma orthonormal_dot_mm:
  assumes "orthonormal A" and "orthonormal B"
  shows "orthonormal (dot_mm A B)"
proof -
  have "dot_mm (dot_mm A B) (transpose3 (dot_mm A B)) =
        dot_mm A (dot_mm (dot_mm B (transpose3 B)) (transpose3 A))"
    by (simp add: transpose3_dot_mm dot_mm_assoc)
  also have "\<dots> = identity3"
    using assms by (simp add: orthonormal_def dot_mm_identity_left)
  finally have 1: "dot_mm (dot_mm A B) (transpose3 (dot_mm A B)) = identity3" .
  have "dot_mm (transpose3 (dot_mm A B)) (dot_mm A B) =
        dot_mm (transpose3 B) (dot_mm (dot_mm (transpose3 A) A) B)"
    by (simp add: transpose3_dot_mm dot_mm_assoc)
  also have "\<dots> = identity3"
    using assms by (simp add: orthonormal_def dot_mm_identity_left)
  finally show ?thesis using 1 by (simp add: orthonormal_def)
qed

lemma sin_cos_unit: "sin t * sin t + cos t * cos t = (1::real)" "cos t * cos t + sin t * sin t = (1::real)"
  using sin_cos_squared_add[of t] by (simp_all add: power2_eq_square add.commute)

lemma rotation_about_x:
  "rotation_about (1, 0, 0) t = ((1, 0, 0), (0, cos t, - sin t), (0, sin t, cos t))"
  by (simp add: rotation_about_def identity3_def)

lemma rotation_about_y:
  "rotation_about (0, 1, 0) t = ((cos t, 0, sin t), (0, 1, 0), (- sin t, 0, cos t))"
  by (simp add: rotation_about_def identity3_def)

lemma rotation_about_z:
  "rotation_about (0, 0, 1) t = ((cos t, - sin t, 0), (sin t, cos t, 0), (0, 0, 1))"
  by (simp add: rotation_about_def identity3_def)

lemma orthonormal_x: "orthonormal (rotation_about (1, 0, 0) t)"
  by (simp add: rotation_about_x orthonormal_def identity3_def sin_cos_unit)

lemma orthonormal_y: "orthonormal (rotation_about (0, 1, 0) t)"
  by (simp add: rotation_about_y orthonormal_def identity3_def sin_cos_unit)

lemma orthonormal_z: "orthonormal (rotation_about (0, 0, 1) t)"
  by (simp add: rotation_about_z orthonormal_def identity3_def sin_cos_unit)

lemma orthonormal_rotation_of: "orthonormal (rotation_of th)"
  by (cases th rule: prod_cases3)
     (simp add: orthonormal_dot_mm orthonormal_x orthonormal_y orthonormal_z
        del: dot_mm.simps)

lemma calc_R_rotation_of: "calc_R c = c\<lparr>cam_R := rotation_of (cam_theta c)\<rparr>"
  by (cases "cam_theta c" rule: prod_cases3)
     (simp add: calc_R_def Let_def rotation_about_x rotation_about_y rotation_about_z)

lemma rotation_of_zero: "rotation_of (0, 0, 0) = identity3"
  by (simp add: rotation_about_x rotation_about_y rotation_about_z identity3_def)

declare rotation_of.simps [simp del]

lemma orthonormal_det: "orthonormal M \<Longrightarrow> det3 M \<noteq> 0"
proof
  assume o: "orthonormal M" and z: "det3 M = 0"
  have "det3 (dot_mm M (transpose3 M)) = 1"
    using o by (simp add: orthonormal_def det3_identity)
  thus False using z by (simp add: det3_dot_mm)
qed

lemma consistent_orthonormal: "consistent c \<Longrightarrow> orthonormal (cam_R c)"
  by (simp add: consistent_def orthonormal_rotation_of)

lemma consistent_calc_R: "consistent c \<Longrightarrow> calc_R c = c"
  by (simp add: consistent_def calc_R_rotation_of)

section \<open>Projection and ray direction\<close>

lemma consistent_camera_frame:
  "consistent c \<Longrightarrow> \<exists>v. camera_frame c x = Inr v"
  by (simp add: camera_frame_def inv_np_def orthonormal_det consistent_orthonormal
        del: split_paired_Ex)

lemma get_r_consistent:
  "consistent c \<Longrightarrow>
   get_r c eta zeta =
     (c, dot_vm (- (eta - real_of_int (fst (cam_resolution c)) / 2),
                 - (zeta - real_of_int (snd (cam_resolution c)) / 2), - cam_f c) (cam_R c))"
  by (simp add: get_r_def consistent_calc_R Let_def)

text \<open>
  C1, as amended.  For a camera with a nonzero focal depth whose matrix is consistent
  with its angles, and a lab point \<open>x\<close> whose camera-frame coordinate
  \<open>v = (x - O) . R\<^sup>-\<^sup>1\<close> has \<open>v2 \<noteq> 0\<close>: \<open>projection\<close> returns finite pixel coordinates, and
  the direction \<open>r\<close> of \<open>get_r\<close> at them is a nonzero multiple of \<open>x - O\<close>; precisely
  \<open>x - O = (- v2 / f) . r\<close>, so \<open>x\<close> lies on the line through \<open>O\<close> along \<open>r\<close>.
\<close>

theorem round_trip_projection_get_r:
  assumes con: "consistent c" and f: "cam_f c \<noteq> 0"
    and v: "camera_frame c x = Inr (v0, v1, v2)" and v2: "v2 \<noteq> 0"
  shows "round_trip c x \<and>
    (\<exists>eta zeta. projection c x = Inr (Some (eta, zeta)) \<and>
       vsub x (cam_O c) = smul (- v2 / cam_f c) (snd (get_r c eta zeta)))"
proof -
  define a where "a = - v2 / cam_f c"
  define eta where "eta = (- 1 * v0) / a + real_of_int (fst (cam_resolution c)) / 2"
  define zeta where "zeta = (- 1 * v1) / a + real_of_int (snd (cam_resolution c)) / 2"
  have a: "a \<noteq> 0" using f v2 by (simp add: a_def)
  have p: "projection c x = Inr (Some (eta, zeta))"
    using v f v2 by (simp add: projection_def Let_def eta_def zeta_def a_def)
  have bk: "dot_vm (v0, v1, v2) (cam_R c) = vsub x (cam_O c)"
    by (rule camera_frame_back[OF v])
  have "(- (eta - real_of_int (fst (cam_resolution c)) / 2),
         - (zeta - real_of_int (snd (cam_resolution c)) / 2), - cam_f c) = smul (1 / a) (v0, v1, v2)"
    using f v2 by (simp add: eta_def zeta_def a_def)
  hence r: "snd (get_r c eta zeta) = smul (1 / a) (vsub x (cam_O c))"
    by (simp only: get_r_consistent[OF con] snd_conv smul_dot_vm bk)
  have 1: "round_trip c x"
    unfolding round_trip_def p using r a by (auto intro!: exI[of _ "1 / a"])
  have "smul a (smul (1 / a) (vsub x (cam_O c))) = vsub x (cam_O c)"
    using a by (cases "vsub x (cam_O c)") simp
  hence 2: "vsub x (cam_O c) = smul (- v2 / cam_f c) (snd (get_r c eta zeta))"
    by (simp add: r a_def)
  from 1 2 p show ?thesis by blast
qed

lemma consistent_example_camera: "consistent (example_camera pos)"
  by (simp add: consistent_def example_camera_def rotation_of_zero)

text \<open>A camera with an odd resolution, away from the origin, and a point off its axis.\<close>

theorem round_trip_projection_get_r_witness:
  "consistent ((example_camera (2, 0, 0))\<lparr>cam_resolution := (11, 11)\<rparr>)
   \<and> cam_f ((example_camera (2, 0, 0))\<lparr>cam_resolution := (11, 11)\<rparr>) \<noteq> 0
   \<and> camera_frame ((example_camera (2, 0, 0))\<lparr>cam_resolution := (11, 11)\<rparr>) (1, 2, 3) =
       Inr (- 1, 2, 3)
   \<and> projection ((example_camera (2, 0, 0))\<lparr>cam_resolution := (11, 11)\<rparr>) (1, 2, 3) =
       Inr (Some (31 / 6, 37 / 6))
   \<and> round_trip ((example_camera (2, 0, 0))\<lparr>cam_resolution := (11, 11)\<rparr>) (1, 2, 3)"
proof -
  let ?c = "(example_camera (2, 0, 0))\<lparr>cam_resolution := (11, 11)\<rparr>"
  have con: "consistent ?c"
    by (simp add: consistent_def example_camera_def rotation_of_zero)
  have fr: "camera_frame ?c (1, 2, 3) = Inr (- 1, 2, 3)"
    by (simp add: camera_frame_def inv_np_def example_camera_def identity3_def)
  have p: "projection ?c (1, 2, 3) = Inr (Some (31 / 6, 37 / 6))"
    by (simp add: projection_def fr) (simp add: example_camera_def)
  have "round_trip ?c (1, 2, 3)"
    using round_trip_projection_get_r[OF con _ fr] by (simp add: example_camera_def)
  thus ?thesis
    using fr con p by (simp add: example_camera_def)
qed

text \<open>
  The claim C1 as it is stated asks only for a consistent matrix and \<open>v2 \<noteq> 0\<close>.  With
  the focal depth \<open>0\<close> the scale \<open>a\<close> is infinite, the pixel coordinates are the centre
  of the image and the direction is the zero vector.
\<close>

theorem round_trip_fails_without_focal_depth:
  "consistent ((example_camera (2, 0, 0))\<lparr>cam_f := 0\<rparr>)
   \<and> camera_frame ((example_camera (2, 0, 0))\<lparr>cam_f := 0\<rparr>) (1, 2, 3) = Inr (- 1, 2, 3)
   \<and> projection ((example_camera (2, 0, 0))\<lparr>cam_f := 0\<rparr>) (1, 2, 3) = Inr (Some (5, 5))
   \<and> snd (get_r ((example_camera (2, 0, 0))\<lparr>cam_f := 0\<rparr>) 5 5) = (0, 0, 0)
   \<and> \<not> round_trip ((example_camera (2, 0, 0))\<lparr>cam_f := 0\<rparr>) (1, 2, 3)"
proof -
  let ?c = "(example_camera (2, 0, 0))\<lparr>cam_f := 0\<rparr>"
  have con: "consistent ?c"
    by (simp add: consistent_def example_camera_def rotation_of_zero)
  have fr: "camera_frame ?c (1, 2, 3) = Inr (- 1, 2, 3)"
    by (simp add: camera_frame_def inv_np_def example_camera_def identity3_def)
  have p: "projection ?c (1, 2, 3) = Inr (Some (5, 5))"
    by (simp add: projection_def fr) (simp add: example_camera_def)
  have r: "snd (get_r ?c 5 5) = (0, 0, 0)"
    by (simp add: get_r_consistent[OF con]) (simp add: example_camera_def identity3_def)
  have "\<not> round_trip ?c (1, 2, 3)"
    by (simp add: round_trip_def p r) (simp add: example_camera_def)
  with con fr p r show ?thesis by blast
qed

section \<open>The rotation matrix, as specified\<close>

text \<open>
  C7.  For every angle triple \<open>(tx, ty, tz)\<close>, \<open>calc_R\<close> changes the matrix only, to the
  product \<open>R\<^sub>x(tx) . R\<^sub>y(ty) . R\<^sub>z(tz)\<close> of the standard right-handed elemental rotation
  matrices, in that order; for the angles \<open>(0, 0, 0)\<close> the matrix is the identity.
\<close>

theorem calc_R_is_Rx_Ry_Rz:
  "calc_R (c\<lparr>cam_theta := (tx, ty, tz)\<rparr>) =
     c\<lparr>cam_theta := (tx, ty, tz),
        cam_R := dot_mm (dot_mm (rotation_about (1, 0, 0) tx) (rotation_about (0, 1, 0) ty))
                        (rotation_about (0, 0, 1) tz)\<rparr>
   \<and> cam_R (calc_R (c\<lparr>cam_theta := (0, 0, 0)\<rparr>)) = identity3"
  by (simp add: calc_R_def Let_def rotation_about_x rotation_about_y rotation_about_z
        identity3_def)

lemma get_r_refreshes:
  "get_r c eta zeta =
     (c\<lparr>cam_R := rotation_of (cam_theta c)\<rparr>,
      dot_vm (- (eta - real_of_int (fst (cam_resolution c)) / 2),
              - (zeta - real_of_int (snd (cam_resolution c)) / 2), - cam_f c)
             (rotation_of (cam_theta c)))"
  by (simp add: get_r_def Let_def calc_R_rotation_of)

lemma camera_init_matrix:
  "camera_init cic name res cal = Inr c' \<Longrightarrow>
     cam_theta c' = (1, 1, 1) \<and> cam_R c' = rotation_of (1, 1, 1)"
  by (auto simp: camera_init_def give_name_def Let_def calc_R_rotation_of
        split: if_splits option.splits sum.splits)

text \<open>
  C8.  For every angle triple the rotation matrix \<open>R\<^sub>x(tx) . R\<^sub>y(ty) . R\<^sub>z(tz)\<close> is
  orthonormal (\<open>R . R\<^sup>T = I\<close> and \<open>R\<^sup>T . R = I\<close>), and it is the matrix \<open>calc_R\<close> writes for
  the angles the camera holds, which \<open>calc_R\<close> leaves as they are.  The same holds after
  \<open>get_r\<close> and after the constructor, the operations that write the matrix: the camera
  then holds the rotation matrix of its current angles.  The matrix \<open>get_r\<close> reads is that
  matrix, whatever matrix was stored before.
\<close>

theorem rotation_matrix_orthonormal:
  "orthonormal (rotation_of (tx, ty, tz))
   \<and> cam_R (calc_R c) = rotation_of (cam_theta c)
   \<and> cam_theta (calc_R c) = cam_theta c
   \<and> orthonormal (cam_R (calc_R c)) \<and> consistent (calc_R c)
   \<and> fst (get_r c eta zeta) = c\<lparr>cam_R := rotation_of (cam_theta c)\<rparr>
   \<and> orthonormal (cam_R (fst (get_r c eta zeta))) \<and> consistent (fst (get_r c eta zeta))
   \<and> snd (get_r c eta zeta) =
       dot_vm (- (eta - real_of_int (fst (cam_resolution c)) / 2),
               - (zeta - real_of_int (snd (cam_resolution c)) / 2), - cam_f c)
              (rotation_of (cam_theta c))
   \<and> snd (get_r (c\<lparr>cam_R := M\<rparr>) eta zeta) = snd (get_r c eta zeta)
   \<and> (case camera_init cic name res cal of
         Inl e \<Rightarrow> True
       | Inr c' \<Rightarrow> cam_R c' = rotation_of (cam_theta c') \<and> orthonormal (cam_R c')
                   \<and> consistent c')"
proof -
  have 6: "case camera_init cic name res cal of
         Inl e \<Rightarrow> True
       | Inr c' \<Rightarrow> cam_R c' = rotation_of (cam_theta c') \<and> orthonormal (cam_R c')
                   \<and> consistent c'"
  proof (cases "camera_init cic name res cal")
    case (Inl e)
    thus ?thesis by simp
  next
    case (Inr c')
    thus ?thesis
      using camera_init_matrix[OF Inr] by (simp add: consistent_def orthonormal_rotation_of)
  qed
  show ?thesis
    using 6 orthonormal_rotation_of
    by (simp add: get_r_refreshes calc_R_rotation_of consistent_def)
qed

section \<open>Camera names\<close>




section \<open>The loop of stereo_match\<close>

lemma same_pose_refl: "same_pose c c"
  unfolding same_pose_def by (rule exI[of _ "cam_R c"]) simp

lemma same_pose_calc_R: "same_pose c c' \<Longrightarrow> calc_R c' = calc_R c"
  by (auto simp: same_pose_def calc_R_rotation_of)

lemma same_pose_calc_R_right: "same_pose c (calc_R c)"
  unfolding same_pose_def calc_R_rotation_of by (rule exI) (rule refl)

lemma same_pose_get_r: "same_pose c c' \<Longrightarrow> get_r c' eta zeta = get_r c eta zeta"
  by (simp add: get_r_def same_pose_calc_R)

lemma same_pose_O: "same_pose c c' \<Longrightarrow> cam_O c' = cam_O c"
  by (auto simp: same_pose_def)

lemma py_index_bound: "py_index xs k = Inr a \<Longrightarrow> a < length xs"
  by (auto simp: py_index_def Let_def split: if_splits)

lemma py_index_length: "length xs = length ys \<Longrightarrow> py_index xs k = py_index ys k"
  by (simp add: py_index_def)

lemma observe_simulates:
  assumes rel: "list_all2 same_pose (cameras sys) cs"
  shows "case epipolar sys coords k of
           Inl e \<Rightarrow> observe cs coords k = Inl e
         | Inr ray \<Rightarrow> (\<exists>cs'. list_all2 same_pose (cameras sys) cs' \<and>
                          observe cs coords k = Inr (cs', fst ray, snd ray))"
proof (cases "py_index (cameras sys) k")
  case (Inl e)
  moreover have "py_index cs k = py_index (cameras sys) k"
    using rel by (intro py_index_length) (simp add: list_all2_lengthD)
  ultimately show ?thesis by (simp add: epipolar_def observe_def)
next
  case (Inr a)
  have len: "length cs = length (cameras sys)" using rel by (simp add: list_all2_lengthD)
  hence idx: "py_index cs k = Inr a" using Inr py_index_length[of cs "cameras sys" k] by simp
  have a: "a < length (cameras sys)" using Inr by (rule py_index_bound)
  have sp: "same_pose (cameras sys ! a) (cs ! a)" using rel a by (simp add: list_all2_nthD)
  show ?thesis
  proof (cases "map_of coords k")
    case None
    thus ?thesis using Inr idx by (simp add: epipolar_def observe_def)
  next
    case (Some p)
    obtain eta zeta where p: "p = (eta, zeta)" by (cases p)
    have g: "get_r (cs ! a) eta zeta = get_r (cameras sys ! a) eta zeta"
      by (rule same_pose_get_r[OF sp])
    have "list_all2 same_pose (cameras sys) (cs[a := calc_R (cameras sys ! a)])"
      using rel a
      by (auto simp: list_all2_conv_all_nth nth_list_update same_pose_calc_R_right)
    thus ?thesis
      using Inr idx Some p g same_pose_O[OF sp]
      by (simp add: epipolar_def observe_def get_r_def Let_def)
  qed
qed


lemma record_pair_cameras:
  "record_pair d_max (st\<lparr>st_cameras := cs\<rparr>) r = (record_pair d_max st r)\<lparr>st_cameras := cs\<rparr>"
  by (simp add: record_pair_def Let_def)

lemma pair_step_simulates:
  assumes rel: "list_all2 same_pose (cameras sys) (st_cameras st)"
  shows "case closest ld sys coords (keys ! i, keys ! j) of
           Inl e \<Rightarrow> pair_step ld coords d_max keys i j st = Inl e
         | Inr r \<Rightarrow> (\<exists>cs'. list_all2 same_pose (cameras sys) cs' \<and>
                        pair_step ld coords d_max keys i j st =
                          Inr ((record_pair d_max st r)\<lparr>st_cameras := cs'\<rparr>))"
proof (cases "epipolar sys coords (keys ! i)")
  case (Inl e)
  thus ?thesis
    using observe_simulates[OF rel, where coords = coords and k = "keys ! i"]
    by (simp add: closest_def pair_step_def)
next
  case (Inr ray1)
  obtain O1 r1 where ray1: "ray1 = (O1, r1)" by (cases ray1)
  have e1: "epipolar sys coords (keys ! i) = Inr (O1, r1)" using Inr ray1 by simp
  obtain cs1 where rel1: "list_all2 same_pose (cameras sys) cs1"
    and o1: "observe (st_cameras st) coords (keys ! i) = Inr (cs1, O1, r1)"
    using observe_simulates[OF rel, where coords = coords and k = "keys ! i"] e1 by auto
  show ?thesis
  proof (cases "epipolar sys coords (keys ! j)")
    case (Inl e)
    thus ?thesis
      using observe_simulates[OF rel1, where coords = coords and k = "keys ! j"] e1 o1
      by (simp add: closest_def pair_step_def)
  next
    case inr2: (Inr ray2)
    obtain O2 r2 where ray2: "ray2 = (O2, r2)" by (cases ray2)
    have e2: "epipolar sys coords (keys ! j) = Inr (O2, r2)" using inr2 ray2 by simp
    obtain cs2 where rel2: "list_all2 same_pose (cameras sys) cs2"
      and o2: "observe cs1 coords (keys ! j) = Inr (cs2, O2, r2)"
      using observe_simulates[OF rel1, where coords = coords and k = "keys ! j"] e2 by auto
    show ?thesis
    proof (cases "ld O1 r1 O2 r2")
      case (Inl e)
      thus ?thesis
        using e1 e2 o1 o2 by (simp add: closest_def pair_step_def)
    next
      case inr3: (Inr res)
      obtain D x where res: "ld O1 r1 O2 r2 = Inr (D, x)" using inr3 by (cases res) simp
      have "pair_step ld coords d_max keys i j st =
              Inr ((record_pair d_max st
                     \<lparr>pr_ki = keys ! i, pr_kj = keys ! j, pr_D = D, pr_x = x\<rparr>)
                   \<lparr>st_cameras := cs2\<rparr>)"
        using o1 o2 res by (simp add: pair_step_def record_pair_def Let_def)
      moreover have "closest ld sys coords (keys ! i, keys ! j) =
              Inr \<lparr>pr_ki = keys ! i, pr_kj = keys ! j, pr_D = D, pr_x = x\<rparr>"
        using e1 e2 res by (simp add: closest_def)
      ultimately show ?thesis using rel2 by auto
    qed
  qed
qed

lemma for_each_append:
  "for_each (xs @ ys) body s =
     (case for_each xs body s of Inl e \<Rightarrow> Inl e | Inr s' \<Rightarrow> for_each ys body s')"
  by (induction xs arbitrary: s) (auto split: sum.splits)

lemma for_each_map_Pair:
  "for_each (map (Pair i) js) (\<lambda>(i, j). body i j) s = for_each js (body i) s"
  by (induction js arbitrary: s) (auto split: sum.splits)

lemma for_each_nested:
  "for_each is (\<lambda>i. for_each (js i) (body i)) s =
   for_each (concat (map (\<lambda>i. map (Pair i) (js i)) is)) (\<lambda>(i, j). body i j) s"
  by (induction "is" arbitrary: s)
     (auto simp: for_each_append for_each_map_Pair split: sum.splits)

lemma for_each_pairs_simulates:
  assumes "list_all2 same_pose (cameras sys) (st_cameras st)"
  shows "case sequence_err (map (\<lambda>(i, j). closest ld sys coords (keys ! i, keys ! j)) ps) of
           Inl e \<Rightarrow> for_each ps (\<lambda>(i, j). pair_step ld coords d_max keys i j) st = Inl e
         | Inr rs \<Rightarrow> (\<exists>cs'. list_all2 same_pose (cameras sys) cs' \<and>
              for_each ps (\<lambda>(i, j). pair_step ld coords d_max keys i j) st =
                Inr ((foldl (record_pair d_max) st rs)\<lparr>st_cameras := cs'\<rparr>))"
  using assms
proof (induction ps arbitrary: st)
  case Nil
  have "st = st\<lparr>st_cameras := st_cameras st\<rparr>" by simp
  with Nil show ?case by (auto intro!: exI[of _ "st_cameras st"])
next
  case (Cons p ps)
  obtain i j where p: "p = (i, j)" by (cases p)
  show ?case
  proof (cases "closest ld sys coords (keys ! i, keys ! j)")
    case (Inl e)
    thus ?thesis
      using pair_step_simulates[OF Cons.prems,
          where ld = ld and coords = coords and keys = keys and i = i and j = j and d_max = d_max] p
      by simp
  next
    case (Inr r)
    then obtain cs1 where rel1: "list_all2 same_pose (cameras sys) cs1"
      and step: "pair_step ld coords d_max keys i j st =
                   Inr ((record_pair d_max st r)\<lparr>st_cameras := cs1\<rparr>)"
      using pair_step_simulates[OF Cons.prems,
          where ld = ld and coords = coords and keys = keys and i = i and j = j and d_max = d_max]
      by auto
    let ?st1 = "(record_pair d_max st r)\<lparr>st_cameras := cs1\<rparr>"
    have rel1': "list_all2 same_pose (cameras sys) (st_cameras ?st1)" using rel1 by simp
    have fold_cams: "foldl (record_pair d_max) (s\<lparr>st_cameras := cs\<rparr>) rs =
                     (foldl (record_pair d_max) s rs)\<lparr>st_cameras := cs\<rparr>" for s cs rs
      by (induction rs arbitrary: s) (simp_all add: record_pair_cameras)
    show ?thesis
      using Cons.IH[OF rel1'] Inr step p
      by (auto simp: fold_cams split: sum.splits)
  qed
qed


lemma foldl_record_pair:
  "foldl (record_pair d_max) st rs =
     st\<lparr>st_x := st_x st @ map pr_x (retained d_max rs),
        st_cams := st_cams st @ concat (map (\<lambda>r. [pr_ki r, pr_kj r]) (retained d_max rs)),
        st_d := st_d st @ map pr_D (retained d_max rs),
        ghost_calls := ghost_calls st @ map (\<lambda>r. (pr_ki r, pr_kj r)) rs\<rparr>"
  by (induction rs arbitrary: st) (simp_all add: record_pair_def retained_def Let_def)

lemma pair_results_index:
  "pair_results ld sys coords =
     sequence_err (map (\<lambda>(i, j). closest ld sys coords (map fst coords ! i, map fst coords ! j))
                       (index_pairs (length coords)))"
  by (simp add: pair_results_def key_pairs_def comp_def case_prod_unfold)

lemma stereo_loop_results:
  "case pair_results ld sys coords of
     Inl e \<Rightarrow> stereo_loop ld sys coords d_max = Inl e
   | Inr rs \<Rightarrow> (\<exists>cs'. list_all2 same_pose (cameras sys) cs' \<and>
        stereo_loop ld sys coords d_max =
          Inr \<lparr>st_cameras = cs',
               st_x = map pr_x (retained d_max rs),
               st_cams = concat (map (\<lambda>r. [pr_ki r, pr_kj r]) (retained d_max rs)),
               st_d = map pr_D (retained d_max rs),
               ghost_calls = map (\<lambda>r. (pr_ki r, pr_kj r)) rs\<rparr>)"
proof -
  let ?st0 = "\<lparr>st_cameras = cameras sys, st_x = [], st_cams = [], st_d = [], ghost_calls = []\<rparr>"
  have rel: "list_all2 same_pose (cameras sys) (st_cameras ?st0)"
    by (simp add: list_all2_conv_all_nth same_pose_refl)
  have loop: "stereo_loop ld sys coords d_max =
      for_each (index_pairs (length coords))
        (\<lambda>(i, j). pair_step ld coords d_max (map fst coords) i j) ?st0"
    by (simp add: stereo_loop_def Let_def for_each_nested index_pairs_def)
  show ?thesis
    using for_each_pairs_simulates[OF rel, where ld = ld and coords = coords
        and keys = "map fst coords" and ps = "index_pairs (length coords)" and d_max = d_max]
    unfolding loop pair_results_index
    by (auto simp: foldl_record_pair split: sum.splits)
qed

lemma py_sum_sum_list: "py_sum xs = sum_list xs"
proof -
  have "foldl (+) a xs = a + sum_list xs" for a :: real
    by (induction xs arbitrary: a) simp_all
  thus ?thesis by (simp add: py_sum_def)
qed

lemma py_sum_vec_sum_list:
  "py_sum_vec xs =
     (sum_list (map fst xs), sum_list (map (\<lambda>v. fst (snd v)) xs),
      sum_list (map (\<lambda>v. snd (snd v)) xs))"
proof -
  have "foldl vadd (a, b, c) xs =
     (a + sum_list (map fst xs), b + sum_list (map (\<lambda>v. fst (snd v)) xs),
      c + sum_list (map (\<lambda>v. snd (snd v)) xs))" for a b c
    by (induction xs arbitrary: a b c) auto
  thus ?thesis by (simp add: py_sum_vec_def)
qed

lemma stereo_match_results:
  "return_value (stereo_match ld sys coords d_max) =
     map_sum id (aggregate d_max) (pair_results ld sys coords)"
proof (cases "pair_results ld sys coords")
  case (Inl e)
  thus ?thesis
    using stereo_loop_results[where ld = ld and sys = sys and coords = coords and d_max = d_max]
    by (simp add: stereo_match_def return_value_def)
next
  case (Inr rs)
  then obtain cs' where loop: "stereo_loop ld sys coords d_max =
          Inr \<lparr>st_cameras = cs',
               st_x = map pr_x (retained d_max rs),
               st_cams = concat (map (\<lambda>r. [pr_ki r, pr_kj r]) (retained d_max rs)),
               st_d = map pr_D (retained d_max rs),
               ghost_calls = map (\<lambda>r. (pr_ki r, pr_kj r)) rs\<rparr>"
    using stereo_loop_results[where ld = ld and sys = sys and coords = coords and d_max = d_max]
    by auto
  show ?thesis
  proof (cases "retained d_max rs = []")
    case True
    thus ?thesis
      by (simp add: stereo_match_def return_value_def loop Inr aggregate_def Let_def)
  next
    case False
    hence len: "1 \<le> length (retained d_max rs)" by (cases "retained d_max rs") simp_all
    show ?thesis
      using False len
      by (simp add: stereo_match_def return_value_def loop Inr aggregate_def Let_def
            py_sum_sum_list py_sum_vec_sum_list mean_def mean_vec_def comp_def)
  qed
qed

section \<open>The example system, evaluated\<close>

lemma key_pairs_2: "key_pairs [k1, k2] = [(k1, k2)]"
  by (simp add: key_pairs_def index_pairs_def upt_rec)

lemma key_pairs_3: "key_pairs [k1, k2, k3] = [(k1, k2), (k1, k3), (k2, k3)]"
  by (simp add: key_pairs_def index_pairs_def upt_rec)

lemma get_r_example_camera:
  "get_r (example_camera pos) eta zeta = (example_camera pos, (5 - eta, 5 - zeta, - 1))"
  by (simp add: get_r_def calc_R_def example_camera_def identity3_def Let_def)

lemma epipolar_example:
  "epipolar example_system example_coords 0 = Inr ((0, 0, 0), (0, 0, - 1))"
  "epipolar example_system example_coords 1 = Inr ((2, 0, 0), (0, - 1, - 1))"
  "epipolar example_system example_coords 2 = Inr ((0, 2, 0), (- 1, 0, - 1))"
  by (simp_all add: epipolar_def example_system_def example_coords_def py_index_def
        get_r_example_camera) (simp_all add: example_camera_def)

lemma line_dist_example:
  "line_dist (0, 0, 0) (0, 0, - 1) (2, 0, 0) (0, - 1, - 1) = Inr (2, (1, 0, 0))"
  "line_dist (0, 0, 0) (0, 0, - 1) (0, 2, 0) (- 1, 0, - 1) = Inr (2, (0, 1, 0))"
  "line_dist (2, 0, 0) (0, - 1, - 1) (0, 2, 0) (- 1, 0, - 1) = Inr (0, (2, 2, 2))"
  by (simp_all add: line_dist_def Let_def)

lemma closest_example:
  "closest line_dist example_system example_coords (0, 1) =
     Inr \<lparr>pr_ki = 0, pr_kj = 1, pr_D = 2, pr_x = (1, 0, 0)\<rparr>"
  "closest line_dist example_system example_coords (0, 2) =
     Inr \<lparr>pr_ki = 0, pr_kj = 2, pr_D = 2, pr_x = (0, 1, 0)\<rparr>"
  "closest line_dist example_system example_coords (1, 2) =
     Inr \<lparr>pr_ki = 1, pr_kj = 2, pr_D = 0, pr_x = (2, 2, 2)\<rparr>"
  by (simp_all add: closest_def epipolar_example line_dist_example)

lemma pair_results_example:
  "pair_results line_dist example_system example_coords =
     Inr [\<lparr>pr_ki = 0, pr_kj = 1, pr_D = 2, pr_x = (1, 0, 0)\<rparr>,
          \<lparr>pr_ki = 0, pr_kj = 2, pr_D = 2, pr_x = (0, 1, 0)\<rparr>,
          \<lparr>pr_ki = 1, pr_kj = 2, pr_D = 0, pr_x = (2, 2, 2)\<rparr>]"
  by (simp add: pair_results_def closest_example)
     (simp add: example_coords_def key_pairs_3 closest_example[unfolded example_coords_def])

lemma epipolar_example_two:
  "epipolar example_system [(1, (5, 6)), (2, (6, 5))] 1 = Inr ((2, 0, 0), (0, - 1, - 1))"
  "epipolar example_system [(1, (5, 6)), (2, (6, 5))] 2 = Inr ((0, 2, 0), (- 1, 0, - 1))"
  by (simp_all add: epipolar_def example_system_def py_index_def get_r_example_camera)
     (simp_all add: example_camera_def)

lemma pair_results_example_far:
  "pair_results line_dist example_system [(0, (5, 5)), (1, (5, 6))] =
     Inr [\<lparr>pr_ki = 0, pr_kj = 1, pr_D = 2, pr_x = (1, 0, 0)\<rparr>]"
  by (simp add: pair_results_def key_pairs_2 closest_def epipolar_def example_system_def
        py_index_def get_r_example_camera line_dist_example)
     (simp add: example_camera_def line_dist_example)

lemma observe_example:
  "observe (cameras example_system) example_coords 0 =
     Inr (cameras example_system, (0, 0, 0), (0, 0, - 1))"
  "observe (cameras example_system) example_coords 1 =
     Inr (cameras example_system, (2, 0, 0), (0, - 1, - 1))"
  "observe (cameras example_system) example_coords 2 =
     Inr (cameras example_system, (0, 2, 0), (- 1, 0, - 1))"
  by (simp_all add: observe_def example_system_def example_coords_def py_index_def
        get_r_example_camera) (simp_all add: example_camera_def)

lemma stereo_loop_example:
  "stereo_loop line_dist example_system example_coords 2 = Inr example_state"
proof -
  have keys: "map fst example_coords = [0, 1, 2]" "length example_coords = 3"
    by (simp_all add: example_coords_def)
  show ?thesis
    by (simp add: stereo_loop_def Let_def keys upt_rec pair_step_def observe_example
          line_dist_example example_state_def)
qed

section \<open>The pairs of keys\<close>

lemma set_index_pairs: "set (index_pairs N) = {(i, j). i < j \<and> j < N}"
proof -
  have "(a, b) \<in> set (index_pairs N)" if "a < b" "b < N" for a b
  proof -
    have "a \<in> {0..<N}" "(a, b) \<in> Pair a ` {Suc a..<N}" using that by auto
    thus ?thesis unfolding index_pairs_def by (simp del: atLeastLessThan_iff) blast
  qed
  moreover have "a < b \<and> b < N" if "(a, b) \<in> set (index_pairs N)" for a b
    using that by (auto simp: index_pairs_def)
  ultimately show ?thesis by auto
qed

lemma distinct_concat_map:
  assumes "distinct xs"
    and "\<And>x. x \<in> set xs \<Longrightarrow> distinct (f x)"
    and "\<And>x y. x \<in> set xs \<Longrightarrow> y \<in> set xs \<Longrightarrow> x \<noteq> y \<Longrightarrow> set (f x) \<inter> set (f y) = {}"
  shows "distinct (concat (map f xs))"
  using assms
proof (induction xs)
  case Nil
  show ?case by simp
next
  case (Cons x xs)
  have "set (f x) \<inter> set (f y) = {}" if "y \<in> set xs" for y
    using Cons.prems(1) Cons.prems(3)[of x y] that by auto
  moreover have "distinct (concat (map f xs))"
    using Cons by simp
  ultimately show ?case using Cons.prems(2)[of x] by auto
qed

lemma distinct_index_pairs: "distinct (index_pairs N)"
  unfolding index_pairs_def
  by (rule distinct_concat_map) (auto simp: distinct_map inj_on_def)

lemma key_pair_inj:
  assumes "distinct keys"
  shows "inj_on (\<lambda>(i, j). unordered (keys ! i, keys ! j)) {(i, j). i < j \<and> j < length keys}"
proof (rule inj_onI, clarify)
  fix i j i' j'
  assume lt: "i < j" "j < length keys" "i' < j'" "j' < length keys"
    and eq: "unordered (keys ! i, keys ! j) = unordered (keys ! i', keys ! j')"
  from eq have "(keys ! i = keys ! i' \<and> keys ! j = keys ! j') \<or>
                (keys ! i = keys ! j' \<and> keys ! j = keys ! i')"
    by (simp add: unordered_def doubleton_eq_iff)
  hence "(i = i' \<and> j = j') \<or> (i = j' \<and> j = i')"
    using assms lt by (simp add: nth_eq_iff_index_eq)
  thus "i = i' \<and> j = j'" using lt by auto
qed

lemma distinct_unordered_key_pairs:
  assumes "distinct keys"
  shows "distinct (map unordered (key_pairs keys))"
proof -
  have "distinct (map (\<lambda>(i, j). unordered (keys ! i, keys ! j)) (index_pairs (length keys)))"
    using key_pair_inj[OF assms]
    by (simp add: distinct_map distinct_index_pairs set_index_pairs)
  thus ?thesis by (simp add: key_pairs_def comp_def case_prod_unfold)
qed

lemma set_unordered_key_pairs:
  assumes "distinct keys"
  shows "unordered ` set (key_pairs keys) = unordered_pairs (set keys)"
proof (intro equalityI subsetI)
  fix s assume "s \<in> unordered ` set (key_pairs keys)"
  then obtain i j where ij: "i < j" "j < length keys" and s: "s = {keys ! i, keys ! j}"
    by (auto simp: key_pairs_def set_index_pairs unordered_def)
  have "keys ! i \<noteq> keys ! j" using assms ij by (simp add: nth_eq_iff_index_eq)
  thus "s \<in> unordered_pairs (set keys)"
    using ij s by (simp add: unordered_pairs_def)
next
  fix s assume "s \<in> unordered_pairs (set keys)"
  hence sub: "s \<subseteq> set keys" and c: "card s = 2" by (simp_all add: unordered_pairs_def)
  from c obtain a b where s: "s = {a, b}" and ab: "a \<noteq> b" by (auto simp: card_2_iff)
  from sub s obtain i j where i: "i < length keys" "keys ! i = a"
    and j: "j < length keys" "keys ! j = b"
    by (auto simp: in_set_conv_nth)
  have ne: "i \<noteq> j" using ab i j by auto
  show "s \<in> unordered ` set (key_pairs keys)"
  proof (cases "i < j")
    case True
    hence "(a, b) \<in> set (key_pairs keys)"
      using i j by (force simp: key_pairs_def set_index_pairs)
    thus ?thesis using s by (force simp: unordered_def)
  next
    case False
    hence "j < i" using ne by simp
    hence "(b, a) \<in> set (key_pairs keys)"
      using i j by (force simp: key_pairs_def set_index_pairs)
    thus ?thesis using s by (force simp: unordered_def insert_commute)
  qed
qed

lemma length_key_pairs:
  assumes "distinct keys"
  shows "length (key_pairs keys) = length keys choose 2"
proof -
  have "length (key_pairs keys) = card (set (map unordered (key_pairs keys)))"
    using distinct_card[OF distinct_unordered_key_pairs[OF assms]] by simp
  also have "\<dots> = card (unordered_pairs (set keys))"
    by (simp add: set_unordered_key_pairs[OF assms])
  also have "\<dots> = card (set keys) choose 2"
    by (simp add: unordered_pairs_def n_subsets)
  finally show ?thesis by (simp add: distinct_card[OF assms])
qed

lemma sequence_err_Inr:
  "sequence_err ms = Inr vs \<Longrightarrow> ms = map Inr vs"
  by (induction ms arbitrary: vs) (auto split: sum.splits)

lemma closest_keys: "closest ld sys coords p = Inr r \<Longrightarrow> (pr_ki r, pr_kj r) = p"
  by (auto simp: closest_def split: sum.splits prod.splits)

lemma pair_results_keys:
  assumes "pair_results ld sys coords = Inr rs"
  shows "map (closest ld sys coords) (key_pairs (map fst coords)) = map Inr rs"
    and "map (\<lambda>r. (pr_ki r, pr_kj r)) rs = key_pairs (map fst coords)"
proof -
  show 1: "map (closest ld sys coords) (key_pairs (map fst coords)) = map Inr rs"
    using assms by (simp add: pair_results_def sequence_err_Inr)
  have "length rs = length (key_pairs (map fst coords))"
    using arg_cong[OF 1, of length] by simp
  moreover have "(pr_ki (rs ! n), pr_kj (rs ! n)) = key_pairs (map fst coords) ! n"
    if "n < length rs" for n
  proof -
    have "closest ld sys coords (key_pairs (map fst coords) ! n) = Inr (rs ! n)"
      using arg_cong[OF 1, of "\<lambda>xs. xs ! n"] that \<open>length rs = _\<close> by simp
    thus ?thesis by (rule closest_keys)
  qed
  ultimately show "map (\<lambda>r. (pr_ki r, pr_kj r)) rs = key_pairs (map fst coords)"
    by (simp add: list_eq_iff_nth_eq)
qed

section \<open>What stereo_match returns\<close>

text \<open>
  C2.  Two-camera exactness: for observations with exactly two entries whose two epipolar
  rays (each from \<open>get_r\<close> of its camera at its own pixel coordinates) have the closest
  approach \<open>(D, x)\<close> by \<open>line_dist\<close> with \<open>D \<le> d_max\<close>, \<open>stereo_match\<close> returns exactly
  the point \<open>x\<close>, the set of the two camera identifiers and \<open>D\<close>.
\<close>

theorem two_camera_exact:
  assumes "epipolar sys [(k1, p1), (k2, p2)] k1 = Inr (O1, r1)"
    and "epipolar sys [(k1, p1), (k2, p2)] k2 = Inr (O2, r2)"
    and "ld O1 r1 O2 r2 = Inr (D, x)"
    and "D \<le> d_max"
  shows "return_value (stereo_match ld sys [(k1, p1), (k2, p2)] d_max) =
           Inr (Some (x, {k1, k2}, D))"
proof -
  have "pair_results ld sys [(k1, p1), (k2, p2)] =
          Inr [\<lparr>pr_ki = k1, pr_kj = k2, pr_D = D, pr_x = x\<rparr>]"
    using assms(1-3) by (simp add: pair_results_def key_pairs_2 closest_def)
  thus ?thesis
    using assms(4)
    by (cases x) (simp add: stereo_match_results aggregate_def retained_def mean_vec_def mean_def)
qed

theorem two_camera_exact_witness:
  "epipolar example_system [(1, (5, 6)), (2, (6, 5))] 1 = Inr ((2, 0, 0), (0, - 1, - 1))
   \<and> epipolar example_system [(1, (5, 6)), (2, (6, 5))] 2 = Inr ((0, 2, 0), (- 1, 0, - 1))
   \<and> line_dist (2, 0, 0) (0, - 1, - 1) (0, 2, 0) (- 1, 0, - 1) = Inr (0, (2, 2, 2))
   \<and> (0::real) \<le> 1
   \<and> return_value (stereo_match line_dist example_system [(1, (5, 6)), (2, (6, 5))] 1) =
       Inr (Some ((2, 2, 2), {1, 2}, 0))"
  using two_camera_exact[where ld = line_dist and sys = example_system
      and ?k1.0 = 1 and ?p1.0 = "(5, 6)" and ?k2.0 = 2 and ?p2.0 = "(6, 5)"
      and ?O1.0 = "(2, 0, 0)" and ?r1.0 = "(0, - 1, - 1)"
      and ?O2.0 = "(0, 2, 0)" and ?r2.0 = "(- 1, 0, - 1)"
      and D = 0 and x = "(2, 2, 2)" and d_max = 1]
    epipolar_example_two line_dist_example(3)
  by simp

text \<open>
  C3.  Aggregate output: when every pair is evaluated and at least one is retained,
  \<open>stereo_match\<close> returns the arithmetic mean of the retained points, the set of the
  identifiers that occur in a retained pair, and the arithmetic mean of the retained
  distances.
\<close>

theorem aggregate_output:
  assumes "pair_results ld sys coords = Inr rs" and "retained d_max rs \<noteq> []"
  shows "return_value (stereo_match ld sys coords d_max) =
           Inr (Some (mean_vec (map pr_x (retained d_max rs)),
                      (\<Union>r\<in>set (retained d_max rs). {pr_ki r, pr_kj r}),
                      mean (map pr_D (retained d_max rs))))"
  using assms by (simp add: stereo_match_results aggregate_def Let_def)

theorem aggregate_output_witness:
  "pair_results line_dist example_system example_coords =
     Inr [\<lparr>pr_ki = 0, pr_kj = 1, pr_D = 2, pr_x = (1, 0, 0)\<rparr>,
          \<lparr>pr_ki = 0, pr_kj = 2, pr_D = 2, pr_x = (0, 1, 0)\<rparr>,
          \<lparr>pr_ki = 1, pr_kj = 2, pr_D = 0, pr_x = (2, 2, 2)\<rparr>]
   \<and> return_value (stereo_match line_dist example_system example_coords 2) =
       Inr (Some ((1, 1, 2 / 3), {0, 1, 2}, 4 / 3))"
  using aggregate_output[OF pair_results_example, of 2] pair_results_example
  by (simp add: retained_def mean_vec_def mean_def insert_commute)

text \<open>
  C5.  No consensus: when every pair is evaluated, \<open>stereo_match\<close> raises nothing; it
  returns \<open>None\<close> exactly when no pair is retained, which is exactly when the distance
  of every pair exceeds \<open>d_max\<close>.
\<close>

theorem no_consensus_is_None:
  assumes "pair_results ld sys coords = Inr rs"
  shows "\<exists>res. return_value (stereo_match ld sys coords d_max) = Inr res
           \<and> (res = None \<longleftrightarrow> retained d_max rs = [])
           \<and> (retained d_max rs = [] \<longleftrightarrow> (\<forall>r\<in>set rs. d_max < pr_D r))"
  using assms
  by (auto simp: stereo_match_results aggregate_def Let_def retained_def filter_empty_conv
        not_le)

theorem no_consensus_is_None_witness:
  "pair_results line_dist example_system [(0, (5, 5)), (1, (5, 6))] =
     Inr [\<lparr>pr_ki = 0, pr_kj = 1, pr_D = 2, pr_x = (1, 0, 0)\<rparr>]
   \<and> return_value (stereo_match line_dist example_system [(0, (5, 5)), (1, (5, 6))] 1) =
       Inr None"
  using no_consensus_is_None[OF pair_results_example_far, of 1] pair_results_example_far
  by (auto simp: retained_def)

lemma stereo_loop_short:
  assumes "length coords < 2"
  shows "stereo_loop ld sys coords d_max =
           Inr \<lparr>st_cameras = cameras sys, st_x = [], st_cams = [], st_d = [], ghost_calls = []\<rparr>"
proof (cases coords)
  case Nil
  thus ?thesis by (simp add: stereo_loop_def)
next
  case (Cons p ps)
  hence "ps = []" using assms by simp
  thus ?thesis using Cons by (simp add: stereo_loop_def)
qed

text \<open>
  C10.  With fewer than two observations \<open>stereo_match\<close> raises nothing, calls
  \<open>line_dist\<close> for no pair, leaves the cameras as they are and returns \<open>None\<close>: the value
  every call without a retained pair returns.
\<close>

theorem fewer_than_two_observations:
  assumes "length coords < 2"
    and "pair_results ld' sys' coords' = Inr rs" and "retained d_max' rs = []"
  shows "stereo_match ld sys coords d_max = Inr (None, sys)
         \<and> stereo_loop ld sys coords d_max =
             Inr \<lparr>st_cameras = cameras sys, st_x = [], st_cams = [], st_d = [],
                  ghost_calls = []\<rparr>
         \<and> return_value (stereo_match ld sys coords d_max) =
             return_value (stereo_match ld' sys' coords' d_max')"
proof -
  have 1: "stereo_match ld sys coords d_max = Inr (None, sys)"
    by (simp add: stereo_match_def stereo_loop_short[OF assms(1)])
  have 2: "return_value (stereo_match ld' sys' coords' d_max') = Inr None"
    using assms(2,3) by (simp add: stereo_match_results aggregate_def)
  show ?thesis
    using 1 2 stereo_loop_short[OF assms(1)] by (simp add: return_value_def)
qed

theorem fewer_than_two_observations_witness:
  "length [(0::int, (5::real, 5::real))] < 2
   \<and> pair_results line_dist example_system [(0, (5, 5)), (1, (5, 6))] =
       Inr [\<lparr>pr_ki = 0, pr_kj = 1, pr_D = 2, pr_x = (1, 0, 0)\<rparr>]
   \<and> retained 1 [\<lparr>pr_ki = 0, pr_kj = 1, pr_D = 2, pr_x = (1, 0, 0)\<rparr>] = []
   \<and> stereo_match line_dist example_system [(0, (5, 5))] 1 = Inr (None, example_system)
   \<and> return_value (stereo_match line_dist example_system [(0, (5, 5))] 1) =
       return_value (stereo_match line_dist example_system [(0, (5, 5)), (1, (5, 6))] 1)"
proof -
  have len: "length [(0::int, (5::real, 5::real))] < 2" by simp
  have ret: "retained 1 [\<lparr>pr_ki = 0, pr_kj = 1, pr_D = 2, pr_x = (1, 0, 0)\<rparr>] = []"
    by (simp add: retained_def)
  show ?thesis
    using fewer_than_two_observations[OF len pair_results_example_far ret,
        of line_dist example_system 1]
      len pair_results_example_far ret
    by blast
qed

section \<open>Which pairs are evaluated\<close>

text \<open>
  C4.  Exhaustive pairing with threshold retention: when the loop of \<open>stereo_match\<close> ends
  without an exception on observations with \<open>N\<close> distinct keys, \<open>line_dist\<close> has been
  called for every unordered pair of distinct keys exactly once, \<open>N choose 2\<close> calls in
  all, each on the rays of the two cameras at their own pixel coordinates; and the lists
  \<open>x\<close>, \<open>cams\<close> and \<open>d\<close> hold, in the order of the calls, the points, keys and distances
  of exactly those pairs whose distance \<open>D\<close> satisfies \<open>D \<le> d_max\<close>.
\<close>

theorem exhaustive_pairing:
  assumes "distinct (map fst coords)" and "stereo_loop ld sys coords d_max = Inr st"
  shows "distinct (map unordered (ghost_calls st))
       \<and> unordered ` set (ghost_calls st) = unordered_pairs (fst ` set coords)
       \<and> length (ghost_calls st) = length coords choose 2
       \<and> (\<exists>rs. map (closest ld sys coords) (ghost_calls st) = map Inr rs
              \<and> st_x st = map pr_x (filter (\<lambda>r. pr_D r \<le> d_max) rs)
              \<and> st_cams st = concat (map (\<lambda>r. [pr_ki r, pr_kj r]) (filter (\<lambda>r. pr_D r \<le> d_max) rs))
              \<and> st_d st = map pr_D (filter (\<lambda>r. pr_D r \<le> d_max) rs))"
proof -
  obtain rs where rs: "pair_results ld sys coords = Inr rs"
    and x: "st_x st = map pr_x (retained d_max rs)"
    and cams: "st_cams st = concat (map (\<lambda>r. [pr_ki r, pr_kj r]) (retained d_max rs))"
    and d: "st_d st = map pr_D (retained d_max rs)"
    and calls: "ghost_calls st = map (\<lambda>r. (pr_ki r, pr_kj r)) rs"
    using stereo_loop_results[where ld = ld and sys = sys and coords = coords and d_max = d_max]
      assms(2)
    by (cases "pair_results ld sys coords") auto
  have calls': "ghost_calls st = key_pairs (map fst coords)"
    using calls pair_results_keys(2)[OF rs] by simp
  have 1: "distinct (map unordered (ghost_calls st))"
    unfolding calls' by (rule distinct_unordered_key_pairs[OF assms(1)])
  have 2: "unordered ` set (ghost_calls st) = unordered_pairs (fst ` set coords)"
    unfolding calls' using set_unordered_key_pairs[OF assms(1)] by simp
  have 3: "length (ghost_calls st) = length coords choose 2"
    unfolding calls' using length_key_pairs[OF assms(1)] by simp
  have 4: "map (closest ld sys coords) (ghost_calls st) = map Inr rs"
    unfolding calls' by (rule pair_results_keys(1)[OF rs])
  show ?thesis
    using 1 2 3 4 x cams d unfolding retained_def by blast
qed

theorem exhaustive_pairing_witness:
  "distinct (map fst example_coords)
   \<and> stereo_loop line_dist example_system example_coords 2 = Inr example_state
   \<and> ghost_calls example_state = [(0, 1), (0, 2), (1, 2)]
   \<and> length (ghost_calls example_state) = length example_coords choose 2
   \<and> unordered ` set (ghost_calls example_state) = unordered_pairs (fst ` set example_coords)
   \<and> st_d example_state = [2, 2, 0]"
proof -
  have d: "distinct (map fst example_coords)" by (simp add: example_coords_def)
  show ?thesis
    using exhaustive_pairing[OF d stereo_loop_example] d stereo_loop_example
    by (simp add: example_state_def)
qed

section \<open>The order of the observations\<close>

lemma vdot_commute: "vdot u v = vdot v u"
  by (cases u; cases v) simp

lemma vdot_vsub_swap: "vdot r (vsub p q) = - vdot r (vsub q p)"
  by (cases r; cases p; cases q) (simp add: algebra_simps)

lemma vnorm_vsub_swap: "vnorm (vsub p q) = vnorm (vsub q p)"
proof -
  have "(a - b) * (a - b) = (b - a) * (b - a)" for a b :: real by (simp add: algebra_simps)
  thus ?thesis by (cases p; cases q) simp
qed

lemma vadd_commute: "vadd p q = vadd q p"
  by (cases p; cases q) simp

lemma line_dist_symmetric: "ld_symmetric line_dist"
  unfolding ld_symmetric_def
proof (intro allI)
  fix O1 r1 O2 r2 :: vec3
  define a where "a = vdot r1 r1"
  define b where "b = vdot r1 r2"
  define c where "c = vdot r2 r2"
  define d where "d = vdot r1 (vsub O1 O2)"
  define e where "e = vdot r2 (vsub O1 O2)"
  have b': "vdot r2 r1 = b" by (simp add: b_def vdot_commute)
  have d': "vdot r2 (vsub O2 O1) = - e" using vdot_vsub_swap[of r2 O2 O1] by (simp add: e_def)
  have e': "vdot r1 (vsub O2 O1) = - d" using vdot_vsub_swap[of r1 O2 O1] by (simp add: d_def)
  have den: "c * a - b * b = a * c - b * b" by simp
  have t: "(b * - d - a * - e) / (a * c - b * b) = (a * e - b * d) / (a * c - b * b)"
    by (simp add: algebra_simps)
  have s: "(c * - d - b * - e) / (a * c - b * b) = (b * e - c * d) / (a * c - b * b)"
    by (simp add: algebra_simps)
  have L: "line_dist O1 r1 O2 r2 =
      (if a * c - b * b = 0 then Inl LinAlgError
       else Inr (vnorm (vsub (vadd O1 (smul ((b * e - c * d) / (a * c - b * b)) r1))
                             (vadd O2 (smul ((a * e - b * d) / (a * c - b * b)) r2))),
                 vdiv (vadd (vadd O1 (smul ((b * e - c * d) / (a * c - b * b)) r1))
                            (vadd O2 (smul ((a * e - b * d) / (a * c - b * b)) r2))) 2))"
    by (simp add: line_dist_def Let_def a_def b_def c_def d_def e_def)
  have R: "line_dist O2 r2 O1 r1 =
      (if a * c - b * b = 0 then Inl LinAlgError
       else Inr (vnorm (vsub (vadd O2 (smul ((a * e - b * d) / (a * c - b * b)) r2))
                             (vadd O1 (smul ((b * e - c * d) / (a * c - b * b)) r1))),
                 vdiv (vadd (vadd O2 (smul ((a * e - b * d) / (a * c - b * b)) r2))
                            (vadd O1 (smul ((b * e - c * d) / (a * c - b * b)) r1))) 2))"
    unfolding line_dist_def Let_def b' d' e' a_def[symmetric] c_def[symmetric] den t s
    by (simp add: mult.commute)
  show "line_dist O1 r1 O2 r2 = line_dist O2 r2 O1 r1"
    unfolding L R
    by (simp add: vnorm_vsub_swap[of "vadd O2 _"] vadd_commute[of "vadd O2 _"])
qed


lemma epipolar_map_of:
  "map_of coords' = map_of coords \<Longrightarrow> epipolar sys coords' k = epipolar sys coords k"
  by (auto simp: epipolar_def split: sum.splits)

lemma closest_map_of:
  assumes "map_of coords' = map_of coords"
  shows "closest ld sys coords' = closest ld sys coords"
proof (rule ext)
  fix p
  have e: "epipolar sys coords' k = epipolar sys coords k" for k
    by (rule epipolar_map_of[OF assms])
  show "closest ld sys coords' p = closest ld sys coords p"
    unfolding closest_def e by (rule refl)
qed

lemma closest_swap:
  assumes "ld_symmetric ld" and "closest ld sys coords (a, b) = Inr r"
  shows "closest ld sys coords (b, a) = Inr (r\<lparr>pr_ki := b, pr_kj := a\<rparr>)"
proof -
  from assms(2) obtain O1 r1 O2 r2 D x where
    e1: "epipolar sys coords a = Inr (O1, r1)" and e2: "epipolar sys coords b = Inr (O2, r2)"
    and l: "ld O1 r1 O2 r2 = Inr (D, x)"
    and r: "r = \<lparr>pr_ki = a, pr_kj = b, pr_D = D, pr_x = x\<rparr>"
    by (auto simp: closest_def split: sum.splits)
  have "ld O2 r2 O1 r1 = ld O1 r1 O2 r2"
    using assms(1) unfolding ld_symmetric_def by blast
  hence "ld O2 r2 O1 r1 = Inr (D, x)"
    using l by simp
  thus ?thesis using e1 e2 r by (simp add: closest_def)
qed

lemma contribution_swap:
  "contribution (r\<lparr>pr_ki := pr_kj r, pr_kj := pr_ki r\<rparr>) = contribution r"
  by (simp add: contribution_def insert_commute)

lemma sequence_err_all:
  assumes "\<And>x. x \<in> set xs \<Longrightarrow> \<exists>v. f x = Inr v"
  shows "sequence_err (map f xs) = Inr (map (\<lambda>x. projr (f x)) xs)"
  using assms
proof (induction xs)
  case Nil
  show ?case by simp
next
  case (Cons x xs)
  from Cons.prems[of x] obtain v where "f x = Inr v" by auto
  moreover have "sequence_err (map f xs) = Inr (map (\<lambda>x. projr (f x)) xs)"
    using Cons by simp
  ultimately show ?case by simp
qed

lemma sequence_err_projr:
  assumes "sequence_err (map f xs) = Inr rs"
  shows "rs = map (\<lambda>x. projr (f x)) xs" and "\<And>x. x \<in> set xs \<Longrightarrow> f x = Inr (projr (f x))"
proof -
  have m: "map f xs = map Inr rs" using assms by (rule sequence_err_Inr)
  have len: "length rs = length xs" using arg_cong[OF m, of length] by simp
  have nth: "f (xs ! n) = Inr (rs ! n)" if "n < length xs" for n
    using arg_cong[OF m, of "\<lambda>l. l ! n"] that len by simp
  show "rs = map (\<lambda>x. projr (f x)) xs"
    using len nth by (simp add: list_eq_iff_nth_eq)
  show "f x = Inr (projr (f x))" if "x \<in> set xs" for x
    using that nth by (auto simp: in_set_conv_nth)
qed

lemma results_permuted:
  assumes dk: "distinct keys" and dk': "distinct keys'" and sk: "set keys' = set keys"
    and sym: "ld_symmetric ld"
    and rs: "sequence_err (map (closest ld sys coords) (key_pairs keys)) = Inr rs"
  shows "\<exists>rs'. sequence_err (map (closest ld sys coords) (key_pairs keys')) = Inr rs'
           \<and> mset (map contribution rs') = mset (map contribution rs)"
proof -
  let ?cl = "closest ld sys coords"
  define G where "G s = contribution (projr (?cl (Min s, Max s)))" for s
  have ok: "?cl p = Inr (projr (?cl p))" if "p \<in> set (key_pairs keys)" for p
    using sequence_err_projr(2)[OF rs that] .
  have both: "?cl p = Inr (projr (?cl p)) \<and> contribution (projr (?cl p)) = G (unordered p)"
    if u: "unordered p \<in> unordered ` set (key_pairs keys)" for p
  proof -
    obtain a b where p: "p = (a, b)" by (cases p)
    from u obtain q where q: "q \<in> set (key_pairs keys)" "unordered q = unordered p" by auto
    obtain c d where cd: "q = (c, d)" by (cases q)
    from q(2) have alt: "(c = a \<and> d = b) \<or> (c = b \<and> d = a)"
      by (auto simp: p cd unordered_def doubleton_eq_iff)
    have qok: "?cl (c, d) = Inr (projr (?cl (c, d)))" using ok[OF q(1)] cd by simp
    have sw: "?cl (d, c) = Inr ((projr (?cl (c, d)))\<lparr>pr_ki := d, pr_kj := c\<rparr>)"
      by (rule closest_swap[OF sym qok])
    have ab: "?cl (a, b) = Inr (projr (?cl (a, b)))"
      using alt qok sw by auto
    have ba: "?cl (b, a) = Inr ((projr (?cl (a, b)))\<lparr>pr_ki := b, pr_kj := a\<rparr>)"
      by (rule closest_swap[OF sym ab])
    have keys: "pr_ki (projr (?cl (a, b))) = a" "pr_kj (projr (?cl (a, b))) = b"
      using closest_keys[OF ab] by simp_all
    have c_ba: "contribution (projr (?cl (b, a))) = contribution (projr (?cl (a, b)))"
      using contribution_swap[of "projr (?cl (a, b))"] ba keys by simp
    have mm: "(Min {a, b}, Max {a, b}) = (if a \<le> b then (a, b) else (b, a))"
      by (auto simp: min_def max_def)
    have "G (unordered p) = contribution (projr (?cl (a, b)))"
      unfolding G_def p unordered_def fst_conv snd_conv mm using c_ba by simp
    thus ?thesis using ab p by simp
  qed
  have u: "unordered ` set (key_pairs keys) = unordered_pairs (set keys)"
    by (rule set_unordered_key_pairs[OF dk])
  have u': "unordered ` set (key_pairs keys') = unordered_pairs (set keys)"
    using set_unordered_key_pairs[OF dk'] sk by simp
  have ok': "?cl p = Inr (projr (?cl p)) \<and> contribution (projr (?cl p)) = G (unordered p)"
    if "p \<in> set (key_pairs keys')" for p
  proof -
    have "unordered p \<in> unordered ` set (key_pairs keys)" using that u u' by blast
    thus ?thesis by (rule both)
  qed
  have ok0: "contribution (projr (?cl p)) = G (unordered p)"
    if "p \<in> set (key_pairs keys)" for p
    using both[of p] that by blast
  have rs_eq: "rs = map (\<lambda>p. projr (?cl p)) (key_pairs keys)"
    by (rule sequence_err_projr(1)[OF rs])
  define rs' where "rs' = map (\<lambda>p. projr (?cl p)) (key_pairs keys')"
  have seq': "sequence_err (map ?cl (key_pairs keys')) = Inr rs'"
    unfolding rs'_def by (rule sequence_err_all) (use ok' in blast)
  have "map contribution rs = map G (map unordered (key_pairs keys))"
    using ok0 by (simp add: rs_eq)
  hence m: "mset (map contribution rs) = image_mset G (mset_set (unordered_pairs (set keys)))"
    using mset_set_set[OF distinct_unordered_key_pairs[OF dk]] u
    by (simp only: mset_map set_map)
  have "map contribution rs' = map G (map unordered (key_pairs keys'))"
    using ok' by (simp add: rs'_def)
  hence m': "mset (map contribution rs') = image_mset G (mset_set (unordered_pairs (set keys)))"
    using mset_set_set[OF distinct_unordered_key_pairs[OF dk']] u'
    by (simp only: mset_map set_map)
  show ?thesis using seq' m m' by auto
qed


lemma mean_mset: "mset xs = mset ys \<Longrightarrow> mean xs = mean ys"
  using sum_mset_sum_list[of xs] sum_mset_sum_list[of ys] mset_eq_length[of xs ys]
  by (simp add: mean_def)

lemma aggregate_mset:
  assumes "mset (map contribution rs') = mset (map contribution rs)"
  shows "aggregate d_max rs' = aggregate d_max rs"
proof -
  let ?Q = "\<lambda>c :: real \<times> vec3 \<times> int set. fst c \<le> d_max"
  have filt: "map contribution (retained d_max l) = filter ?Q (map contribution l)" for l
    by (simp add: retained_def filter_map comp_def contribution_def)
  have M: "mset (map contribution (retained d_max rs')) =
           mset (map contribution (retained d_max rs))"
    using assms by (simp only: filt mset_filter)
  have via: "mset (map (\<lambda>r. g (contribution r)) (retained d_max rs')) =
             mset (map (\<lambda>r. g (contribution r)) (retained d_max rs))" for g :: "_ \<Rightarrow> real"
    using arg_cong[OF M, of "image_mset g"] by (simp add: multiset.map_comp comp_def)
  have D: "mean (map pr_D (retained d_max rs')) = mean (map pr_D (retained d_max rs))"
    using via[of fst] by (intro mean_mset) (simp add: contribution_def)
  have X0: "mean (map fst (map pr_x (retained d_max rs'))) =
            mean (map fst (map pr_x (retained d_max rs)))"
    using via[of "\<lambda>c. fst (fst (snd c))"] by (intro mean_mset) (simp add: contribution_def comp_def)
  have X1: "mean (map (\<lambda>v. fst (snd v)) (map pr_x (retained d_max rs'))) =
            mean (map (\<lambda>v. fst (snd v)) (map pr_x (retained d_max rs)))"
    using via[of "\<lambda>c. fst (snd (fst (snd c)))"]
    by (intro mean_mset) (simp add: contribution_def comp_def)
  have X2: "mean (map (\<lambda>v. snd (snd v)) (map pr_x (retained d_max rs'))) =
            mean (map (\<lambda>v. snd (snd v)) (map pr_x (retained d_max rs)))"
    using via[of "\<lambda>c. snd (snd (fst (snd c)))"]
    by (intro mean_mset) (simp add: contribution_def comp_def)
  have S: "(\<Union>r\<in>set (retained d_max rs'). {pr_ki r, pr_kj r}) =
           (\<Union>r\<in>set (retained d_max rs). {pr_ki r, pr_kj r})"
  proof -
    have u: "(\<Union>r\<in>set l. {pr_ki r, pr_kj r}) =
          \<Union> ((\<lambda>c. snd (snd c)) ` set (map contribution l))" for l
      by (simp add: contribution_def image_image)
    have "set (map contribution (retained d_max rs')) =
          set (map contribution (retained d_max rs))"
      by (rule mset_eq_setD[OF M])
    thus ?thesis by (simp only: u)
  qed
  have E: "retained d_max rs' = [] \<longleftrightarrow> retained d_max rs = []"
    using arg_cong[OF M, of size] by (simp flip: length_0_conv)
  show ?thesis
    unfolding aggregate_def Let_def mean_vec_def using D X0 X1 X2 S E by simp
qed

lemma results_of_permuted_coords:
  assumes d: "distinct (map fst coords)" and p: "mset coords' = mset coords"
    and sym: "ld_symmetric ld" and rs: "pair_results ld sys coords = Inr rs"
  shows "\<exists>rs'. pair_results ld sys coords' = Inr rs' \<and> aggregate d_max rs' = aggregate d_max rs"
proof -
  have mk: "mset (map fst coords') = mset (map fst coords)" using p by simp
  have d': "distinct (map fst coords')"
    using d mset_eq_imp_distinct_iff[OF mk] by simp
  have sk: "set (map fst coords') = set (map fst coords)"
    using mset_eq_setD[OF mk] .
  have "set coords' = set coords" using mset_eq_setD[OF p] .
  hence mo: "map_of coords' = map_of coords"
    using map_of_inject_set[OF d' d] by simp
  have cl: "closest ld sys coords' = closest ld sys coords"
    by (rule closest_map_of[OF mo])
  from rs have "sequence_err (map (closest ld sys coords) (key_pairs (map fst coords))) = Inr rs"
    by (simp add: pair_results_def)
  from results_permuted[OF d d' sk sym this]
  obtain rs' where "sequence_err (map (closest ld sys coords) (key_pairs (map fst coords'))) = Inr rs'"
    and "mset (map contribution rs') = mset (map contribution rs)" by blast
  thus ?thesis
    using aggregate_mset[of rs' rs d_max] by (auto simp: pair_results_def cl)
qed

lemma stereo_match_permuted:
  assumes d: "distinct (map fst coords)" and p: "mset coords' = mset coords"
    and sym: "ld_symmetric ld"
    and r: "return_value (stereo_match ld sys coords d_max) = Inr res"
  shows "return_value (stereo_match ld sys coords' d_max) = Inr res"
proof -
  from r obtain rs where rs: "pair_results ld sys coords = Inr rs"
    and res: "res = aggregate d_max rs"
    by (cases "pair_results ld sys coords") (auto simp: stereo_match_results)
  from results_of_permuted_coords[OF d p sym rs, of d_max]
  show ?thesis using res by (auto simp: stereo_match_results)
qed

lemma stereo_match_example:
  "return_value (stereo_match line_dist example_system example_coords 2) =
     Inr (Some ((1, 1, 2 / 3), {0, 1, 2}, 4 / 3))"
  by (simp add: stereo_match_results pair_results_example aggregate_def retained_def
        mean_vec_def mean_def insert_commute)

text \<open>
  C6.  Order invariance: for observations with distinct keys and a \<open>line_dist\<close> that does
  not depend on which line is given first, permuting the iteration order of the
  observations changes nothing in what \<open>stereo_match\<close> returns: the call on the permuted
  observations returns a value exactly when the call on the original ones does, and then
  the averaged point, the identifier set and the mean distance are the same (over exact
  real arithmetic).
\<close>

theorem order_invariance:
  assumes "distinct (map fst coords)" and "mset coords' = mset coords" and "ld_symmetric ld"
  shows "return_value (stereo_match ld sys coords' d_max) = Inr res \<longleftrightarrow>
         return_value (stereo_match ld sys coords d_max) = Inr res"
proof
  assume "return_value (stereo_match ld sys coords d_max) = Inr res"
  thus "return_value (stereo_match ld sys coords' d_max) = Inr res"
    by (rule stereo_match_permuted[OF assms])
next
  have mk: "mset (map fst coords') = mset (map fst coords)" using assms(2) by simp
  have d': "distinct (map fst coords')"
    using assms(1) mset_eq_imp_distinct_iff[OF mk] by simp
  assume "return_value (stereo_match ld sys coords' d_max) = Inr res"
  thus "return_value (stereo_match ld sys coords d_max) = Inr res"
    by (rule stereo_match_permuted[OF d' assms(2)[symmetric] assms(3)])
qed

theorem order_invariance_witness:
  "distinct (map fst example_coords)
   \<and> mset [(2, (6, 5)), (0, (5, 5)), (1, (5, 6))] = mset example_coords
   \<and> ld_symmetric line_dist
   \<and> return_value
         (stereo_match line_dist example_system [(2, (6, 5)), (0, (5, 5)), (1, (5, 6))] 2) =
       Inr (Some ((1, 1, 2 / 3), {0, 1, 2}, 4 / 3))
   \<and> return_value (stereo_match line_dist example_system example_coords 2) =
       Inr (Some ((1, 1, 2 / 3), {0, 1, 2}, 4 / 3))"
proof -
  have d: "distinct (map fst example_coords)" by (simp add: example_coords_def)
  have p: "mset [(2, (6, 5)), (0, (5, 5)), (1, (5, 6))] = mset example_coords"
    by (simp add: example_coords_def)
  show ?thesis
    using order_invariance[OF d p line_dist_symmetric, of example_system 2
        "Some ((1, 1, 2 / 3), {0, 1, 2}, 4 / 3)"]
      d p line_dist_symmetric stereo_match_example
    by blast
qed

end
